theory Spec2Isabelle
  imports Main "HOL-Library.Extended_Nat" "HOL-Library.AList" "HOL-Library.Multiset"
begin

section \<open>Python errors\<close>

text \<open>
  Every exception the modelled code can raise is a value. \<open>External\<close> stands for a failure
  raised by one of the external collaborators (the traced function, the tracer, a compiler,
  a compiled executable).
\<close>

datatype error =
    KeyError
  | AttributeError
  | TypeError
  | StopIteration
  | IndexError
  | AssertionError
  | RuntimeError string
  | NetworkXUnbounded
  | External string

section \<open>The graph model (\<open>torch.fx\<close>)\<close>

text \<open>
  A node of an \<open>fx.Graph\<close>: its unique \<open>name\<close>, its \<open>op\<close>, its \<open>target\<close> (a string for
  placeholders and the output node, a function object for \<open>call_function\<close>), its positional
  and keyword arguments, and the shape recorded under \<open>meta['tensor_meta']\<close> when present.
  Arguments are nested: a reference to another node, a literal (\<open>None\<close>, a number, or a
  concrete tensor \<open>AConst c\<close>, named after the joint node whose value it is), or a list/tuple
  of arguments.
  Python compares and hashes nodes by identity; names are unique within a graph, so a node of
  a given graph is identified by its name.
\<close>

datatype opkind = Placeholder | CallFunction | GetAttr | Output | CallModule | CallMethod

datatype target = TStr string | TFun string

datatype arg = ANode string | ANone | AInt int | AConst string | ASeq "arg list"

record node =
  name :: string
  op :: opkind
  target :: target
  args :: "arg list"
  kwargs :: "(string \<times> arg) list"
  tensor_meta :: "nat list option"

type_synonym graph = "node list"

text \<open>
  The joint module: its graph and the two leaf counts read from
  \<open>_out_spec.children_specs[0].num_leaves\<close> and \<open>_out_spec.children_specs[1].num_leaves\<close>.
\<close>

record fx_module =
  nodes :: graph
  num_fwd_outputs :: nat
  num_bwd_outputs :: nat

text \<open>The nodes that \<open>map_arg\<close> visits in one argument, left to right.\<close>

fun arg_nodes :: "arg \<Rightarrow> string list" where
  "arg_nodes (ANode n) = [n]"
| "arg_nodes ANone = []"
| "arg_nodes (AInt i) = []"
| "arg_nodes (AConst c) = []"
| "arg_nodes (ASeq xs) = concat (map arg_nodes xs)"

text \<open>The nodes visited by \<open>map_arg(n.args, f)\<close> followed by \<open>map_arg(n.kwargs, f)\<close>.\<close>

definition node_refs :: "node \<Rightarrow> string list" where
  "node_refs n = concat (map arg_nodes (args n)) @ concat (map (arg_nodes \<circ> snd) (kwargs n))"

text \<open>Python's \<open>sub in s\<close> on strings.\<close>

fun str_in :: "string \<Rightarrow> string \<Rightarrow> bool" where
  "str_in sub [] = (sub = [])"
| "str_in sub (c # cs) = (take (length sub) (c # cs) = sub \<or> str_in sub cs)"

text \<open>
  \<open>'tangents' in n.target\<close>, evaluated only for placeholders, whose target is a string.
\<close>

fun target_has :: "string \<Rightarrow> target \<Rightarrow> bool" where
  "target_has sub (TStr s) = str_in sub s"
| "target_has sub (TFun f) = False"

text \<open>\<open>_is_primal\<close> and \<open>_is_tangent\<close> (lines 165-169).\<close>

definition is_primal :: "node \<Rightarrow> bool" where
  "is_primal n = (op n = Placeholder \<and> \<not> target_has ''tangents'' (target n))"

definition is_tangent :: "node \<Rightarrow> bool" where
  "is_tangent n = (op n = Placeholder \<and> target_has ''tangents'' (target n))"

text \<open>
  \<open>users\<close> of a node in a graph: the nodes that refer to it in their arguments.
\<close>

definition users :: "graph \<Rightarrow> string \<Rightarrow> node list" where
  "users g nm = filter (\<lambda>m. nm \<in> set (node_refs m)) g"

section \<open>The default partitioner\<close>

text \<open>
  The state of the colouring walk of \<open>default_partition\<close> (lines 42-66). \<open>bw_nodes\<close> is only
  tested for membership. \<open>saved_nodes\<close> is a Python set that is iterated later: the list
  holds each element once, in the order in which it was added.
\<close>

record coloring =
  bw_nodes :: "string set"
  saved_nodes :: "string list"
  output_node :: "node option"

definition add_saved :: "string set \<Rightarrow> string list \<Rightarrow> string \<Rightarrow> string list" where
  "add_saved bw saved a = (if a \<notin> bw \<and> a \<notin> set saved then saved @ [a] else saved)"

definition color_node :: "coloring \<Rightarrow> node \<Rightarrow> coloring" where
  "color_node c n =
     (if op n = Placeholder \<and> target_has ''tangents'' (target n) then
        c\<lparr>bw_nodes := insert (name n) (bw_nodes c)\<rparr>
      else if op n \<noteq> Output then
        (let has_color = (\<exists>a \<in> set (node_refs n). a \<in> bw_nodes c \<or> a \<in> set (saved_nodes c)) in
         if has_color then
           (let bw = insert (name n) (bw_nodes c) in
            c\<lparr>bw_nodes := bw, saved_nodes := foldl (add_saved bw) (saved_nodes c) (node_refs n)\<rparr>)
         else c)
      else c\<lparr>output_node := Some n\<rparr>)"

definition color_graph :: "graph \<Rightarrow> coloring" where
  "color_graph g = foldl color_node \<lparr>bw_nodes = {}, saved_nodes = [], output_node = None\<rparr> g"

section \<open>Gradient routing: \<open>CompiledFunction.backward\<close>\<close>

text \<open>
  What a compiled executable returns: a tuple, a list, or a single object.
\<close>

datatype 'v pyval = PyTuple "'v list" | PyList "'v list" | PyObj 'v

text \<open>\<open>normalize_as_list\<close> (lines 323-328).\<close>

fun normalize_as_list :: "'v pyval \<Rightarrow> 'v list" where
  "normalize_as_list (PyTuple xs) = xs"
| "normalize_as_list (PyList xs) = xs"
| "normalize_as_list (PyObj x) = [x]"

text \<open>
  The autograd context of one forward/backward pair: the tensors saved by
  \<open>ctx.save_for_backward\<close> and, for every input of the forward call, whether it needs a
  gradient (\<open>ctx.needs_input_grad\<close>).
\<close>

record 'v ctx =
  saved_tensors :: "'v list"
  needs_input_grad :: "bool list"

text \<open>
  Line 397-398: \<open>out_iter = iter(out)\<close>,
  \<open>grad_out = [next(out_iter) if p else None for p in ctx.needs_input_grad]\<close>.
  The second argument is what is left of the iterator; \<open>next\<close> on an exhausted iterator
  raises \<open>StopIteration\<close>.
\<close>

fun grad_out :: "bool list \<Rightarrow> 'v list \<Rightarrow> error + 'v option list" where
  "grad_out [] out_iter = Inr []"
| "grad_out (p # ps) out_iter =
     (if p then
        (case out_iter of
           [] \<Rightarrow> Inl StopIteration
         | g # rest \<Rightarrow>
             (case grad_out ps rest of Inl e \<Rightarrow> Inl e | Inr gs \<Rightarrow> Inr (Some g # gs)))
      else
        (case grad_out ps out_iter of Inl e \<Rightarrow> Inl e | Inr gs \<Rightarrow> Inr (None # gs)))"

text \<open>
  \<open>CompiledFunction.backward\<close> (lines 391-399). The first argument is the value of the
  closure variable \<open>compiled_bw\<close> of \<open>create_compiled_function\<close>: \<open>None\<close> until the backward
  compiler has returned; calling \<open>None\<close> is a \<open>TypeError\<close>.
\<close>

definition backward ::
  "('v list \<Rightarrow> error + 'v pyval) option \<Rightarrow> 'v ctx \<Rightarrow> 'v list \<Rightarrow> error + 'v option list" where
  "backward cbw c flat_args =
     (let contiguous_args = flat_args in
      case cbw of
        None \<Rightarrow> Inl TypeError
      | Some bw \<Rightarrow>
          (case bw (saved_tensors c @ contiguous_args) of
             Inl e \<Rightarrow> Inl e
           | Inr r \<Rightarrow> grad_out (needs_input_grad c) (normalize_as_list r)))"

section \<open>Well-formed graphs and an example\<close>

text \<open>
  The invariant that \<open>fx\<close> maintains and \<open>Graph.lint\<close> checks: names are unique, every node
  refers only to nodes that come earlier in the graph, and placeholders refer to no node.
  \<open>topo seen g\<close> checks \<open>g\<close> given the names already \<open>seen\<close>.
\<close>

fun topo :: "string list \<Rightarrow> graph \<Rightarrow> bool" where
  "topo seen [] = True"
| "topo seen (n # ns) =
     (name n \<notin> set seen \<and> set (node_refs n) \<subseteq> set seen \<and>
      (op n = Placeholder \<longrightarrow> node_refs n = []) \<and> topo (seen @ [name n]) ns)"

definition wf_graph :: "graph \<Rightarrow> bool" where
  "wf_graph g = topo [] g"

text \<open>
  Two auxiliary predicates for the colouring walk over a prefix \<open>g\<close> of the graph: the saved
  set holds exactly the nodes outside the backward set that a backward node refers to, and
  both sets hold only names of nodes already visited.
\<close>

definition saved_spec :: "graph \<Rightarrow> coloring \<Rightarrow> bool" where
  "saved_spec g c = (\<forall>a. a \<in> set (saved_nodes c) \<longleftrightarrow>
        a \<notin> bw_nodes c \<and> (\<exists>m\<in>set g. name m \<in> bw_nodes c \<and> a \<in> set (node_refs m)))"

definition color_inv :: "graph \<Rightarrow> coloring \<Rightarrow> bool" where
  "color_inv g c = (bw_nodes c \<subseteq> name ` set g \<and> set (saved_nodes c) \<subseteq> name ` set g \<and> saved_spec g c)"

text \<open>
  A joint graph as the tracer produces it for \<open>f(x) = x * x\<close>: the forward output \<open>mul\<close> and
  the gradient \<open>mul_2\<close>, computed from the tangent, the forward product and the input.
\<close>

definition ex_joint :: graph where
  "ex_joint =
    [\<lparr>name = ''primals_1'', op = Placeholder, target = TStr ''primals_1'', args = [], kwargs = [],
       tensor_meta = Some [2, 3]\<rparr>,
     \<lparr>name = ''tangents_1'', op = Placeholder, target = TStr ''tangents_1'', args = [], kwargs = [],
       tensor_meta = Some [2, 3]\<rparr>,
     \<lparr>name = ''mul'', op = CallFunction, target = TFun ''mul'',
       args = [ANode ''primals_1'', ANode ''primals_1''], kwargs = [], tensor_meta = Some [2, 3]\<rparr>,
     \<lparr>name = ''mul_1'', op = CallFunction, target = TFun ''mul'',
       args = [ANode ''tangents_1'', ANode ''mul''], kwargs = [], tensor_meta = Some [2, 3]\<rparr>,
     \<lparr>name = ''mul_2'', op = CallFunction, target = TFun ''mul'',
       args = [ANode ''mul_1'', ANode ''primals_1''], kwargs = [], tensor_meta = Some [2, 3]\<rparr>,
     \<lparr>name = ''output'', op = Output, target = TStr ''output'',
       args = [ASeq [ANode ''mul'', ANode ''mul_2'']], kwargs = [], tensor_meta = None\<rparr>]"

section \<open>Building graphs\<close>

text \<open>
  \<open>fx.Graph.create_node\<close> names a new node through the graph's namespace, which belongs to
  the \<open>torch.fx\<close> library: a candidate name that no node of the graph has is kept (the names
  of a joint graph come from the same namespace, so they are legal); otherwise the library
  derives an unused name from it. Which name it derives is approximated here by the first
  unused one among \<open>candidate_1\<close>, \<open>candidate_2\<close>, ...; the library increments a trailing
  number of the candidate instead and also avoids Python keywords and builtins, so the two
  may differ in the name chosen, never in whether a name is changed for a clash. The code
  under study reads only the names of placeholders created for distinct inputs, which are
  kept.
\<close>

fun digits_of :: "nat \<Rightarrow> string" where
  "digits_of n = (if n < 10 then [char_of (48 + n)] else digits_of (n div 10) @ [char_of (48 + n mod 10)])"

definition create_name :: "string list \<Rightarrow> string \<Rightarrow> string" where
  "create_name used candidate =
     (if candidate \<notin> set used then candidate
      else (case find (\<lambda>c. c \<notin> set used)
                   (map (\<lambda>k. candidate @ ''_'' @ digits_of k) [1..<length used + 2]) of
              Some c \<Rightarrow> c
            | None \<Rightarrow> candidate))"

text \<open>
  \<open>Graph.create_node\<close>, \<open>Graph.placeholder(name)\<close> (the target of the new placeholder is the
  requested name) and \<open>Graph.output(result)\<close>. The functions return the graph with the new
  node appended, and the name of that node.
\<close>

definition create_node ::
  "graph \<Rightarrow> opkind \<Rightarrow> target \<Rightarrow> arg list \<Rightarrow> (string \<times> arg) list \<Rightarrow> string \<Rightarrow> nat list option
     \<Rightarrow> graph \<times> string" where
  "create_node g k tg as kw candidate meta =
     (let nm = create_name (map name g) candidate in
      (g @ [\<lparr>name = nm, op = k, target = tg, args = as, kwargs = kw, tensor_meta = meta\<rparr>], nm))"

definition placeholder :: "graph \<Rightarrow> string \<Rightarrow> graph \<times> string" where
  "placeholder g nm = create_node g Placeholder (TStr nm) [] [] nm None"

definition graph_output :: "graph \<Rightarrow> arg \<Rightarrow> graph" where
  "graph_output g result = fst (create_node g Output (TStr ''output'') [result] [] ''output'' None)"

text \<open>
  \<open>value_remap\<close>: a dictionary from nodes of the joint graph to nodes of the graph being
  built. A later binding of a key shadows an earlier one.
\<close>

type_synonym remap = "(string \<times> string) list"

definition remap_get :: "remap \<Rightarrow> string \<Rightarrow> error + string" where
  "remap_get vr k = (case map_of vr k of None \<Rightarrow> Inl KeyError | Some v \<Rightarrow> Inr v)"

text \<open>
  \<open>lambda n: value_remap[n]\<close>, the argument transformation of \<open>default_partition\<close>: the node
  of the new graph that stands for \<open>n\<close>.
\<close>

definition remap_node :: "remap \<Rightarrow> string \<Rightarrow> error + arg" where
  "remap_node vr k = (case remap_get vr k of Inl e \<Rightarrow> Inl e | Inr v \<Rightarrow> Inr (ANode v))"

text \<open>A comprehension whose body may raise: the first error ends it.\<close>

fun map_err :: "('a \<Rightarrow> error + 'b) \<Rightarrow> 'a list \<Rightarrow> error + 'b list" where
  "map_err f [] = Inr []"
| "map_err f (x # xs) =
     (case f x of
        Inl e \<Rightarrow> Inl e
      | Inr y \<Rightarrow> (case map_err f xs of Inl e \<Rightarrow> Inl e | Inr ys \<Rightarrow> Inr (y # ys)))"

text \<open>\<open>map_arg(a, f)\<close> with a function \<open>f\<close> that may raise.\<close>

fun map_arg :: "(string \<Rightarrow> error + arg) \<Rightarrow> arg \<Rightarrow> error + arg"
and map_arg_list :: "(string \<Rightarrow> error + arg) \<Rightarrow> arg list \<Rightarrow> error + arg list" where
  "map_arg f (ANode n) = f n"
| "map_arg f ANone = Inr ANone"
| "map_arg f (AInt i) = Inr (AInt i)"
| "map_arg f (AConst c) = Inr (AConst c)"
| "map_arg f (ASeq xs) = (case map_arg_list f xs of Inl e \<Rightarrow> Inl e | Inr ys \<Rightarrow> Inr (ASeq ys))"
| "map_arg_list f [] = Inr []"
| "map_arg_list f (x # xs) =
     (case map_arg f x of
        Inl e \<Rightarrow> Inl e
      | Inr y \<Rightarrow> (case map_arg_list f xs of Inl e \<Rightarrow> Inl e | Inr ys \<Rightarrow> Inr (y # ys)))"

text \<open>
  \<open>Graph.node_copy(node, arg_transform)\<close>: the copy has the same op and target, the
  transformed arguments, the name of the original as candidate name and a copy of its meta.
\<close>

definition node_copy :: "graph \<Rightarrow> node \<Rightarrow> (string \<Rightarrow> error + arg) \<Rightarrow> error + graph \<times> string" where
  "node_copy g n arg_transform =
     (case map_arg_list arg_transform (args n) of
        Inl e \<Rightarrow> Inl e
      | Inr as \<Rightarrow>
          (case map_err (\<lambda>(k, a). case map_arg arg_transform a of Inl e \<Rightarrow> Inl e | Inr a' \<Rightarrow> Inr (k, a'))
                  (kwargs n) of
             Inl e \<Rightarrow> Inl e
           | Inr kw \<Rightarrow> Inr (create_node g (op n) (target n) as kw (name n) (tensor_meta n))))"

text \<open>
  The two copying passes of \<open>default_partition\<close> (lines 77-79 and 90-92):
  \<open>value_remap[node] = graph.node_copy(node, lambda n: value_remap[n])\<close> for every node that
  satisfies the test of the loop.
\<close>

fun copy_nodes :: "(node \<Rightarrow> bool) \<Rightarrow> graph \<Rightarrow> graph \<times> remap \<Rightarrow> error + graph \<times> remap" where
  "copy_nodes P [] s = Inr s"
| "copy_nodes P (n # ns) (g, vr) =
     (if P n then
        (case node_copy g n (remap_node vr) of
           Inl e \<Rightarrow> Inl e
         | Inr (g', nm) \<Rightarrow> copy_nodes P ns (g', (name n, nm) # vr))
      else copy_nodes P ns (g, vr))"

text \<open>
  \<open>value_remap[i]\<close> for an entry \<open>i\<close> of the output list: a node is looked up; \<open>None\<close>,
  numbers and tensors are not keys of the dictionary; a list cannot be hashed.
\<close>

fun remap_item :: "remap \<Rightarrow> arg \<Rightarrow> error + arg" where
  "remap_item vr (ANode n) = remap_node vr n"
| "remap_item vr ANone = Inl KeyError"
| "remap_item vr (AInt i) = Inl KeyError"
| "remap_item vr (AConst c) = Inl KeyError"
| "remap_item vr (ASeq xs) = Inl TypeError"

text \<open>Lines 83-84 and 96-97: a list of exactly one output is replaced by its element.\<close>

definition unwrap_single :: "arg list \<Rightarrow> arg" where
  "unwrap_single xs = (case xs of [x] \<Rightarrow> x | _ \<Rightarrow> ASeq xs)"

text \<open>Lines 72-75: one placeholder of the backward graph per saved node.\<close>

definition saved_placeholders :: "string list \<Rightarrow> graph \<times> remap" where
  "saved_placeholders saved =
     foldl (\<lambda>(g, vr) s. let (g', nm) = placeholder g s in (g', (s, nm) # vr)) ([], []) saved"

text \<open>
  \<open>default_partition\<close> (lines 41-102). \<open>set_iter\<close> gives the order in which Python iterates
  over the set \<open>saved_nodes\<close>: the language fixes no order for sets (it follows the hashes of
  the node objects), only that the two iterations of the unchanged set (lines 74 and 95)
  agree. \<open>graph.lint()\<close> is taken to pass on the graphs built here.
\<close>

definition default_partition ::
  "(string list \<Rightarrow> string list) \<Rightarrow> fx_module \<Rightarrow> error + graph \<times> graph" where
  "default_partition set_iter fx =
     (let c = color_graph (nodes fx) in
      case output_node c of
        None \<Rightarrow> Inl AttributeError
      | Some out \<Rightarrow>
          (case args out of
             ASeq outs # _ \<Rightarrow>
               (let bw_outputs = drop (num_fwd_outputs fx) outs;
                    saved = set_iter (saved_nodes c) in
                case copy_nodes (\<lambda>n. name n \<in> bw_nodes c \<or> ANode (name n) \<in> set bw_outputs)
                       (nodes fx) (saved_placeholders saved) of
                  Inl e \<Rightarrow> Inl e
                | Inr (bw_graph, value_remap) \<Rightarrow>
                    if num_fwd_outputs fx + num_bwd_outputs fx \<noteq> length outs then Inl AssertionError
                    else
                      (case map_err (remap_item value_remap) bw_outputs of
                         Inl e \<Rightarrow> Inl e
                       | Inr bwd_outputs \<Rightarrow>
                           (case copy_nodes (\<lambda>n. name n \<notin> bw_nodes c \<and> op n \<noteq> Output)
                                  (nodes fx) ([], []) of
                              Inl e \<Rightarrow> Inl e
                            | Inr (fw_graph, value_remap') \<Rightarrow>
                                (case map_err (remap_item value_remap')
                                        (take (num_fwd_outputs fx) outs) of
                                   Inl e \<Rightarrow> Inl e
                                 | Inr fwd_outs \<Rightarrow>
                                     (case map_err (remap_get value_remap') saved of
                                        Inl e \<Rightarrow> Inl e
                                      | Inr saved_outs \<Rightarrow>
                                          Inr (graph_output fw_graph
                                                 (unwrap_single (fwd_outs @ map ANode saved_outs)),
                                               graph_output bw_graph (unwrap_single bwd_outputs)))))))
           | [] \<Rightarrow> Inl IndexError
           | _ \<Rightarrow> Inl TypeError))"

text \<open>The joint module of \<open>ex_joint\<close>: one forward output, one gradient.\<close>

definition ex_module :: fx_module where
  "ex_module = \<lparr>nodes = ex_joint, num_fwd_outputs = 1, num_bwd_outputs = 1\<rparr>"

text \<open>A \<open>value_remap\<close> that sends every node to the node of the same name.\<close>

definition remap_id :: "remap \<Rightarrow> bool" where
  "remap_id vr = (\<forall>k v. map_of vr k = Some v \<longrightarrow> v = k)"

section \<open>The recompute-aware partitioner: the flow network\<close>

text \<open>
  The \<open>networkx\<close> digraph built at lines 236-286: its edges with their \<open>capacity\<close>
  attribute; \<open>math.inf\<close> is \<open>\<infinity>\<close>. \<open>add_edge\<close> on an edge that exists replaces its capacity.
\<close>

type_synonym nx_graph = "((string \<times> string) \<times> enat) list"

definition add_edge :: "nx_graph \<Rightarrow> string \<Rightarrow> string \<Rightarrow> enat \<Rightarrow> nx_graph" where
  "add_edge G u v capacity = AList.update (u, v) capacity G"

text \<open>
  Lines 239-245: the tangent placeholders and, in graph order, the users of every node
  already in the closure.
\<close>

definition closure_step :: "graph \<Rightarrow> string set \<Rightarrow> node \<Rightarrow> string set" where
  "closure_step g tangent_closure n =
     (let tc = (if op n = Placeholder \<and> target_has ''tangents'' (target n)
                then insert (name n) tangent_closure else tangent_closure)
      in if name n \<in> tc then tc \<union> name ` set (users g (name n)) else tc)"

definition tangent_closure :: "graph \<Rightarrow> string set" where
  "tangent_closure g = foldl (closure_step g) {} g"

text \<open>
  The operator lists of lines 247-252; \<open>''add''\<close> stands for \<open>aten.add\<close>. \<open>view_ops\<close> is
  defined by the source but is not part of \<open>recomputable_ops\<close> (lines 254-259).
\<close>

definition pointwise_ops :: "string list" where
  "pointwise_ops = [''add'', ''sub'', ''div'', ''atan2'', ''mul'', ''max'', ''min'', ''pow'',
     ''remainder'', ''fmod'', ''__and__'', ''__or__'', ''__xor__'', ''__lshift__'', ''__rshift__'',
     ''eq'', ''ne'', ''ge'', ''gt'', ''le'', ''lt'', ''abs'', ''bitwise_not'', ''ceil'', ''floor'',
     ''frac'', ''neg'', ''relu'', ''round'', ''silu'', ''trunc'', ''log'', ''log10'', ''log1p'',
     ''log2'', ''lgamma'', ''exp'', ''expm1'', ''erf'', ''erfc'', ''cos'', ''acos'', ''cosh'',
     ''sin'', ''asin'', ''sinh'', ''tan'', ''atan'', ''tanh'', ''atanh'', ''sqrt'', ''rsqrt'',
     ''reciprocal'', ''sigmoid'', ''softplus'', ''threshold'', ''threshold_backward'', ''clamp'',
     ''where'', ''lerp'', ''addcmul'', ''gelu'', ''gelu_backward'']"

definition reduction_ops :: "string list" where
  "reduction_ops = [''softmax'', ''_softmax'', ''_softmax_backward_data'', ''sum'', ''mean'',
     ''_grad_sum_to_size'', ''sum_to_size'', ''amax'']"

definition norm_ops :: "string list" where
  "norm_ops = [''instance_norm'', ''_batch_norm_impl_index'', ''native_batch_norm'', ''batch_norm'',
     ''_batch_norm_impl_index_backward'', ''native_layer_norm'', ''layer_norm'',
     ''native_layer_norm_backward'']"

definition misc_ops :: "string list" where
  "misc_ops = [''to'', ''type_as'']"

definition view_ops :: "string list" where
  "view_ops = [''expand'', ''clone'', ''transpose'', ''t'', ''view'', ''_unsafe_view'', ''permute'',
     ''transpose'', ''t'', ''_reshape_alias'', ''squeeze'', ''unsqueeze'', ''reshape'']"

definition recomputable_ops :: "target set" where
  "recomputable_ops = TFun ` set (pointwise_ops @ reduction_ops @ norm_ops @ misc_ops)"

text \<open>\<open>prod\<close> (lines 211-215).\<close>

definition prod :: "nat list \<Rightarrow> nat" where
  "prod x = foldl (\<lambda>s i. s * i) 1 x"

text \<open>
  Lines 266-282: \<open>is_input\<close>, and the capacity of the edge from \<open>name_in\<close> to \<open>name_out\<close>.
\<close>

definition is_input :: "node \<Rightarrow> bool" where
  "is_input n = (op n = Placeholder \<and> target_has ''primals'' (target n))"

definition weight :: "node \<Rightarrow> enat" where
  "weight n =
     (case tensor_meta n of
        None \<Rightarrow> \<infinity>
      | Some shape \<Rightarrow> (let mem_sz = prod shape in if is_input n then enat mem_sz else enat (mem_sz * 2)))"

text \<open>The body of the loop at lines 262-286 for one node, and the whole loop.\<close>

definition network_step :: "graph \<Rightarrow> string set \<Rightarrow> nx_graph \<Rightarrow> node \<Rightarrow> nx_graph" where
  "network_step g tc G n =
     (if name n \<in> tc then add_edge G (name n @ ''_in'') ''sink'' \<infinity>
      else
        (let G1 = (if is_input n then add_edge G ''source'' (name n @ ''_in'') \<infinity> else G);
             G2 = (if target n \<notin> recomputable_ops then add_edge G1 ''source'' (name n @ ''_in'') \<infinity>
                   else G1);
             G3 = add_edge G2 (name n @ ''_in'') (name n @ ''_out'') (weight n)
         in foldl (\<lambda>G' user. add_edge G' (name n @ ''_out'') (name user @ ''_in'') \<infinity>) G3
              (users g (name n))))"

definition nx_network :: "graph \<Rightarrow> nx_graph" where
  "nx_network g = foldl (network_step g (tangent_closure g)) [] g"

text \<open>
  Lines 289-298. \<open>nx.minimum_cut\<close> (an external library) returns the cut value and the
  partition \<open>(reachable, non_reachable)\<close> of the vertices, or raises \<open>NetworkXUnbounded\<close>
  when a path of infinite capacity joins source and sink; the value it returns is the summed
  capacity of the edges from \<open>reachable\<close> to \<open>non_reachable\<close>, here \<open>cut_capacity\<close>.
  \<open>cutset\<close> collects those edges; \<open>cut_nodes\<close> is the loop with the assertion
  \<open>node_in[:-3] == node_out[:-4]\<close>.
\<close>

definition cutset :: "nx_graph \<Rightarrow> string set \<Rightarrow> string set \<Rightarrow> (string \<times> string) list" where
  "cutset G reachable non_reachable =
     filter (\<lambda>(u, v). u \<in> reachable \<and> v \<in> non_reachable) (map fst G)"

definition cut_capacity :: "nx_graph \<Rightarrow> string set \<Rightarrow> string set \<Rightarrow> enat" where
  "cut_capacity G reachable non_reachable =
     sum_list (map snd (filter (\<lambda>((u, v), c). u \<in> reachable \<and> v \<in> non_reachable) G))"

fun cut_nodes :: "(string \<times> string) list \<Rightarrow> string list \<Rightarrow> error + string list" where
  "cut_nodes [] acc = Inr acc"
| "cut_nodes ((node_in, node_out) # rest) acc =
     (if take (length node_in - 3) node_in \<noteq> take (length node_out - 4) node_out
      then Inl AssertionError
      else (let node_name = take (length node_in - 3) node_in in
            cut_nodes rest (if node_name \<in> set acc then acc else acc @ [node_name])))"

text \<open>
  The joint graph of a matrix product \<open>x @ w\<close>, with both gradients.
\<close>

definition ex_mm :: graph where
  "ex_mm =
    [\<lparr>name = ''primals_1'', op = Placeholder, target = TStr ''primals_1'', args = [], kwargs = [],
       tensor_meta = Some [2, 3]\<rparr>,
     \<lparr>name = ''primals_2'', op = Placeholder, target = TStr ''primals_2'', args = [], kwargs = [],
       tensor_meta = Some [3, 4]\<rparr>,
     \<lparr>name = ''tangents_1'', op = Placeholder, target = TStr ''tangents_1'', args = [], kwargs = [],
       tensor_meta = Some [2, 4]\<rparr>,
     \<lparr>name = ''mm'', op = CallFunction, target = TFun ''mm'',
       args = [ANode ''primals_1'', ANode ''primals_2''], kwargs = [], tensor_meta = Some [2, 4]\<rparr>,
     \<lparr>name = ''t'', op = CallFunction, target = TFun ''t'',
       args = [ANode ''primals_2''], kwargs = [], tensor_meta = Some [4, 3]\<rparr>,
     \<lparr>name = ''mm_1'', op = CallFunction, target = TFun ''mm'',
       args = [ANode ''tangents_1'', ANode ''t''], kwargs = [], tensor_meta = Some [2, 3]\<rparr>,
     \<lparr>name = ''t_1'', op = CallFunction, target = TFun ''t'',
       args = [ANode ''primals_1''], kwargs = [], tensor_meta = Some [3, 2]\<rparr>,
     \<lparr>name = ''mm_2'', op = CallFunction, target = TFun ''mm'',
       args = [ANode ''t_1'', ANode ''tangents_1''], kwargs = [], tensor_meta = Some [3, 4]\<rparr>,
     \<lparr>name = ''output'', op = Output, target = TStr ''output'',
       args = [ASeq [ANode ''mm'', ANode ''mm_1'', ANode ''mm_2'']], kwargs = [],
       tensor_meta = None\<rparr>]"

text \<open>
  Every edge of finite capacity joins \<open>name_in\<close> to \<open>name_out\<close> for a node of the graph.
\<close>

definition finite_edges_ok :: "graph \<Rightarrow> nx_graph \<Rightarrow> bool" where
  "finite_edges_ok g G =
     (\<forall>e\<in>set G. snd e \<noteq> \<infinity> \<longrightarrow> (\<exists>n\<in>set g. fst e = (name n @ ''_in'', name n @ ''_out'')))"

text \<open>The minimum cut of the network of \<open>ex_joint\<close>: it severs \<open>primals_1\<close>, at cost 6.\<close>

definition ex_reachable :: "string set" where
  "ex_reachable = {''source'', ''primals_1_in''}"

definition ex_non_reachable :: "string set" where
  "ex_non_reachable = {''primals_1_out'', ''mul_in'', ''mul_out'', ''mul_1_in'', ''mul_2_in'',
     ''tangents_1_in'', ''output_in'', ''sink''}"

section \<open>The subgraph extractor and the recompute-aware partitioner\<close>

text \<open>
  The environment of \<open>_extract_graph_with_inputs_outputs\<close> (lines 113-163) maps the joint
  nodes visited so far to a proxy of a node of the new graph, to the marker \<open>InvalidNode\<close>, or
  to a concrete value: \<open>node.target(*args, **kwargs)\<close> with no proxy among the arguments
  runs the operator at once and yields its result, not a proxy.
\<close>

datatype env_val = Proxy string | InvalidNode | Concrete string

type_synonym env = "(string \<times> env_val) list"

definition env_get :: "env \<Rightarrow> string \<Rightarrow> error + env_val" where
  "env_get env x = (case map_of env x of None \<Rightarrow> Inl KeyError | Some v \<Rightarrow> Inr v)"

fun is_proxy :: "env_val \<Rightarrow> bool" where
  "is_proxy (Proxy p) = True"
| "is_proxy v = False"

text \<open>The leaves of \<open>pytree.tree_flatten\<close> on an argument.\<close>

fun arg_leaves :: "arg \<Rightarrow> arg list" where
  "arg_leaves (ASeq xs) = concat (map arg_leaves xs)"
| "arg_leaves a = [a]"

text \<open>
  The candidate name of a node created by tracing a call: the name of the called function.
\<close>

fun target_str :: "target \<Rightarrow> string" where
  "target_str (TStr s) = s"
| "target_str (TFun f) = f"

text \<open>A loop whose body may raise.\<close>

fun fold_err :: "('s \<Rightarrow> 'a \<Rightarrow> error + 's) \<Rightarrow> 's \<Rightarrow> 'a list \<Rightarrow> error + 's" where
  "fold_err f s [] = Inr s"
| "fold_err f s (x # xs) = (case f s x of Inl e \<Rightarrow> Inl e | Inr s' \<Rightarrow> fold_err f s' xs)"

text \<open>
  Lines 128-131: a placeholder of the new graph per input, in order, recorded in the
  dictionary \<open>new_inputs\<close> under the name of the input.
\<close>

definition input_placeholders :: "node list \<Rightarrow> graph \<times> (string \<times> string) list" where
  "input_placeholders inputs =
     foldl (\<lambda>(g, new_inputs) node.
              let (g', new_node) = placeholder g (name node) in (g', (name node, new_node) # new_inputs))
       ([], []) inputs"

text \<open>
  \<open>map_arg_to_proxy\<close> (lines 139-144) returns \<open>env[x]\<close>: in the arguments of the new node a
  proxy stands for its node and a concrete value for itself. It is only called when no
  argument is invalid (line 147).
\<close>

definition map_arg_to_proxy :: "env \<Rightarrow> string \<Rightarrow> error + arg" where
  "map_arg_to_proxy env x =
     (case env_get env x of
        Inl e \<Rightarrow> Inl e
      | Inr (Proxy p) \<Rightarrow> Inr (ANode p)
      | Inr (Concrete c) \<Rightarrow> Inr (AConst c)
      | Inr InvalidNode \<Rightarrow> Inl TypeError)"

definition map_kwargs :: "(string \<Rightarrow> error + arg) \<Rightarrow> (string \<times> arg) list \<Rightarrow> error + (string \<times> arg) list" where
  "map_kwargs f kw =
     map_err (\<lambda>(k, a). case map_arg f a of Inl e \<Rightarrow> Inl e | Inr a' \<Rightarrow> Inr (k, a')) kw"

text \<open>
  The body of the loop at lines 133-158 for one node of the joint graph. A call with a proxy
  among its arguments appends a \<open>call_function\<close> node to the new graph.
\<close>

definition extract_step ::
  "node list \<Rightarrow> (string \<times> string) list \<Rightarrow> graph \<times> env \<Rightarrow> node \<Rightarrow> error + graph \<times> env" where
  "extract_step inputs new_inputs s node =
     (case s of (g, env) \<Rightarrow>
      if name node \<in> name ` set inputs then
        (case map_of new_inputs (name node) of
           None \<Rightarrow> Inl KeyError
         | Some p \<Rightarrow> Inr (g, (name node, Proxy p) # env))
      else if op node = Placeholder then Inr (g, (name node, InvalidNode) # env)
      else if op node = CallFunction then
        (case map_err (env_get env) (node_refs node) of
           Inl e \<Rightarrow> Inl e
         | Inr all_args \<Rightarrow>
             if InvalidNode \<in> set all_args then Inr (g, (name node, InvalidNode) # env)
             else
               (case map_arg_list (map_arg_to_proxy env) (args node) of
                  Inl e \<Rightarrow> Inl e
                | Inr as \<Rightarrow>
                    (case map_kwargs (map_arg_to_proxy env) (kwargs node) of
                       Inl e \<Rightarrow> Inl e
                     | Inr kw \<Rightarrow>
                         if \<exists>v\<in>set all_args. is_proxy v then
                           (let (g', out) = create_node g CallFunction (target node) as kw
                                              (target_str (target node)) None
                            in Inr (g', (name node, Proxy out) # env))
                         else Inr (g, (name node, Concrete (name node)) # env))))
      else if op node = GetAttr then
        (case node_copy g node (map_arg_to_proxy env) of
           Inl e \<Rightarrow> Inl e
         | Inr (g', new_node) \<Rightarrow> Inr (g', (name node, Proxy new_node) # env))
      else Inr (g, env))"

text \<open>
  \<open>env[x].node\<close> for an entry \<open>x\<close> of \<open>outputs\<close> (line 159): a missing key is a
  \<open>KeyError\<close>; the invalid marker and a concrete value have no attribute \<open>node\<close>.
\<close>

fun output_proxy_node :: "env \<Rightarrow> arg \<Rightarrow> error + arg" where
  "output_proxy_node env (ANode x) =
     (case env_get env x of
        Inl e \<Rightarrow> Inl e
      | Inr (Proxy p) \<Rightarrow> Inr (ANode p)
      | Inr v \<Rightarrow> Inl AttributeError)"
| "output_proxy_node env (ASeq xs) = Inl TypeError"
| "output_proxy_node env a = Inl KeyError"

text \<open>
  \<open>Graph.eliminate_dead_code\<close> of \<open>torch.fx\<close>: going backwards, a node without users is
  erased unless it is impure; placeholders and the output node are impure.
\<close>

definition is_impure :: "node \<Rightarrow> bool" where
  "is_impure n = (op n = Placeholder \<or> op n = Output)"

fun eliminate_dead_code :: "graph \<Rightarrow> graph" where
  "eliminate_dead_code [] = []"
| "eliminate_dead_code (n # ns) =
     (let kept = eliminate_dead_code ns in
      if \<not> is_impure n \<and> users kept (name n) = [] then kept else n # kept)"

text \<open>\<open>_extract_graph_with_inputs_outputs\<close> (lines 113-163); \<open>lint\<close> is taken to pass.\<close>

definition extract_graph_with_inputs_outputs ::
  "graph \<Rightarrow> node list \<Rightarrow> arg list \<Rightarrow> error + graph" where
  "extract_graph_with_inputs_outputs joint_graph inputs outputs =
     (case input_placeholders inputs of (new_graph, new_inputs) \<Rightarrow>
      case fold_err (extract_step inputs new_inputs) (new_graph, []) joint_graph of
        Inl e \<Rightarrow> Inl e
      | Inr (new_graph', env) \<Rightarrow>
          (case map_err (output_proxy_node env) outputs of
             Inl e \<Rightarrow> Inl e
           | Inr outs \<Rightarrow> Inr (eliminate_dead_code (graph_output new_graph' (ASeq outs)))))"

text \<open>\<open>_extract_fwd_bwd_outputs\<close> (lines 171-176).\<close>

definition extract_fwd_bwd_outputs :: "fx_module \<Rightarrow> arg list \<times> arg list" where
  "extract_fwd_bwd_outputs joint_module =
     (let outputs = concat (map (\<lambda>n. concat (map arg_leaves (args n)))
                             (filter (\<lambda>n. op n = Output) (nodes joint_module)))
      in (take (num_fwd_outputs joint_module) outputs, drop (num_fwd_outputs joint_module) outputs))"

text \<open>
  Lines 187-192: for every placeholder of the backward graph without users, the first saved
  value of that name is removed from \<open>saved_values\<close>.
\<close>

fun remove_by_name :: "string \<Rightarrow> node list \<Rightarrow> node list" where
  "remove_by_name nm [] = []"
| "remove_by_name nm (saved_value # rest) =
     (if name saved_value = nm then rest else saved_value # remove_by_name nm rest)"

definition drop_unused :: "graph \<Rightarrow> node list \<Rightarrow> node list" where
  "drop_unused bwd_graph saved_values =
     foldl (\<lambda>sv node. if op node = Placeholder \<and> users bwd_graph (name node) = []
                        then remove_by_name (name node) sv else sv)
       saved_values bwd_graph"

text \<open>\<open>_extract_fwd_bwd_modules\<close> (lines 178-201).\<close>

definition extract_fwd_bwd_modules :: "fx_module \<Rightarrow> node list \<Rightarrow> error + graph \<times> graph" where
  "extract_fwd_bwd_modules joint_module saved_values =
     (case extract_fwd_bwd_outputs joint_module of (fwd_outputs, bwd_outputs) \<Rightarrow>
      let primal_inputs = filter is_primal (nodes joint_module);
          tangent_inputs = filter is_tangent (nodes joint_module)
      in
      case extract_graph_with_inputs_outputs (nodes joint_module) primal_inputs
             (fwd_outputs @ map (ANode \<circ> name) saved_values) of
        Inl e \<Rightarrow> Inl e
      | Inr fwd_graph0 \<Rightarrow>
      case extract_graph_with_inputs_outputs (nodes joint_module) (saved_values @ tangent_inputs)
             bwd_outputs of
        Inl e \<Rightarrow> Inl e
      | Inr bwd_graph0 \<Rightarrow>
      let saved_values' = drop_unused bwd_graph0 saved_values in
      case extract_graph_with_inputs_outputs (nodes joint_module) primal_inputs
             (fwd_outputs @ map (ANode \<circ> name) saved_values') of
        Inl e \<Rightarrow> Inl e
      | Inr fwd_graph \<Rightarrow>
      case extract_graph_with_inputs_outputs (nodes joint_module) (saved_values' @ tangent_inputs)
             bwd_outputs of
        Inl e \<Rightarrow> Inl e
      | Inr bwd_graph \<Rightarrow> Inr (fwd_graph, bwd_graph))"

text \<open>The dictionary \<open>name_to_node\<close> (lines 238-240): a later node of the same name wins.\<close>

definition name_to_node :: "graph \<Rightarrow> string \<Rightarrow> error + node" where
  "name_to_node g nm =
     (case find (\<lambda>n. name n = nm) (rev g) of None \<Rightarrow> Inl KeyError | Some n \<Rightarrow> Inr n)"

text \<open>
  \<open>partition_with_recompute_fwd_in_bwd\<close> (lines 218-305). \<open>has_networkx\<close> says whether
  \<open>import networkx\<close> succeeds; \<open>minimum_cut\<close> is \<open>nx.minimum_cut\<close>; \<open>set_iter\<close> is the order
  in which Python iterates over the set \<open>cut_nodes\<close> (line 302).
\<close>

definition partition_with_recompute_fwd_in_bwd ::
  "bool \<Rightarrow> (nx_graph \<Rightarrow> string \<Rightarrow> string \<Rightarrow> error + enat \<times> string set \<times> string set) \<Rightarrow>
   (string list \<Rightarrow> string list) \<Rightarrow> fx_module \<Rightarrow> error + graph \<times> graph" where
  "partition_with_recompute_fwd_in_bwd has_networkx minimum_cut set_iter joint_module =
     (if \<not> has_networkx then
        Inl (RuntimeError ''Need networkx installed to perform smart recomputation heuristics'')
      else
        (let G = nx_network (nodes joint_module) in
         case minimum_cut G ''source'' ''sink'' of
           Inl e \<Rightarrow> Inl e
         | Inr (cut_value, reachable, non_reachable) \<Rightarrow>
             (case cut_nodes (cutset G reachable non_reachable) [] of
                Inl e \<Rightarrow> Inl e
              | Inr names \<Rightarrow>
                  (case map_err (name_to_node (nodes joint_module)) (set_iter names) of
                     Inl e \<Rightarrow> Inl e
                   | Inr saved_values \<Rightarrow> extract_fwd_bwd_modules joint_module saved_values))))"

text \<open>
  The refinement pass in the words of the specification: \<open>refine_saved\<close> keeps the saved
  values whose placeholder in the given backward graph has a user; \<open>rebuild\<close> builds both
  subgraphs for a saved set; \<open>refine_and_rebuild\<close> builds them, refines the saved set once
  against the backward graph just built, and rebuilds once.
\<close>

definition refine_saved :: "graph \<Rightarrow> node list \<Rightarrow> node list" where
  "refine_saved bwd_graph saved_values =
     filter (\<lambda>s. \<not> (\<exists>p\<in>set bwd_graph. op p = Placeholder \<and> name p = name s \<and>
                                      users bwd_graph (name p) = []))
       saved_values"

definition rebuild :: "fx_module \<Rightarrow> node list \<Rightarrow> error + graph \<times> graph" where
  "rebuild joint_module saved_values =
     (case extract_graph_with_inputs_outputs (nodes joint_module)
             (filter is_primal (nodes joint_module))
             (fst (extract_fwd_bwd_outputs joint_module) @ map (ANode \<circ> name) saved_values) of
        Inl e \<Rightarrow> Inl e
      | Inr fwd_graph \<Rightarrow>
          (case extract_graph_with_inputs_outputs (nodes joint_module)
                  (saved_values @ filter is_tangent (nodes joint_module))
                  (snd (extract_fwd_bwd_outputs joint_module)) of
             Inl e \<Rightarrow> Inl e
           | Inr bwd_graph \<Rightarrow> Inr (fwd_graph, bwd_graph)))"

definition refine_and_rebuild :: "fx_module \<Rightarrow> node list \<Rightarrow> error + graph \<times> graph" where
  "refine_and_rebuild joint_module saved_values =
     (case rebuild joint_module saved_values of
        Inl e \<Rightarrow> Inl e
      | Inr (fwd_graph0, bwd_graph0) \<Rightarrow> rebuild joint_module (refine_saved bwd_graph0 saved_values))"

text \<open>The placeholder that \<open>Graph.placeholder(nm)\<close> creates when the name is unused.\<close>

definition new_placeholder :: "string \<Rightarrow> node" where
  "new_placeholder nm =
     \<lparr>name = nm, op = Placeholder, target = TStr nm, args = [], kwargs = [], tensor_meta = None\<rparr>"

text \<open>Example modules and saved values.\<close>

definition ex_mm_module :: fx_module where
  "ex_mm_module = \<lparr>nodes = ex_mm, num_fwd_outputs = 1, num_bwd_outputs = 2\<rparr>"

definition ex_saved :: "node list" where
  "ex_saved = [ex_mm ! 0, ex_mm ! 3, ex_mm ! 1]"

text \<open>
  The joint graph of \<open>f(x, y) = x * 2\<close> with both inputs requiring a gradient: \<open>y\<close> is
  unused, so \<open>torch.autograd.grad(..., allow_unused=True)\<close> (line 313) returns \<open>None\<close> for it.
\<close>

definition ex_unused :: fx_module where
  "ex_unused =
    \<lparr>nodes =
       [\<lparr>name = ''primals_1'', op = Placeholder, target = TStr ''primals_1'', args = [], kwargs = [],
          tensor_meta = Some [2, 3]\<rparr>,
        \<lparr>name = ''primals_2'', op = Placeholder, target = TStr ''primals_2'', args = [], kwargs = [],
          tensor_meta = Some [2, 3]\<rparr>,
        \<lparr>name = ''tangents_1'', op = Placeholder, target = TStr ''tangents_1'', args = [],
          kwargs = [], tensor_meta = Some [2, 3]\<rparr>,
        \<lparr>name = ''mul'', op = CallFunction, target = TFun ''mul'',
          args = [ANode ''primals_1'', AInt 2], kwargs = [], tensor_meta = Some [2, 3]\<rparr>,
        \<lparr>name = ''mul_1'', op = CallFunction, target = TFun ''mul'',
          args = [ANode ''tangents_1'', AInt 2], kwargs = [], tensor_meta = Some [2, 3]\<rparr>,
        \<lparr>name = ''output'', op = Output, target = TStr ''output'',
          args = [ASeq [ANode ''mul'', ANode ''mul_1'', ANone]], kwargs = [], tensor_meta = None\<rparr>],
     num_fwd_outputs = 1, num_bwd_outputs = 2\<rparr>"

section \<open>The dispatch wrapper and the compilation cache\<close>

text \<open>
  A compiled executable takes the flattened arguments and returns a tuple, a list or a
  single object, or raises. The calls of a wrapped callable to its external collaborators
  (the traced function, the tracer, the partitioner, the compilers and the compiled forward)
  are observable effects; the model records them in the order in which they are made.
\<close>

type_synonym 'v exe = "'v list \<Rightarrow> error + 'v pyval"

datatype event =
  CallFlatFn | CallMakeFx | CallPartitionFn | CallFwCompiler | CallCompiledFw | CallBwCompiler

text \<open>
  The closure variables \<open>compiled_fw\<close>, \<open>compiled_bw\<close> and \<open>num_outs\<close> of one call of
  \<open>create_compiled_function\<close> (lines 349-351), all \<open>None\<close> at first.
\<close>

record 'v compiled_state =
  compiled_fw :: "'v exe option"
  compiled_bw :: "'v exe option"
  num_outs :: "nat option"

text \<open>
  Modelled from the spec: the class \<open>CompileCache\<close> of \<open>functorch._C\<close>, which is not among
  the sources. A cache maps a key (callable identity, number of flattened arguments,
  signature-scheme tag, derived signature of the arguments) to the cached value, with at
  most one entry per key; \<open>at\<close> looks a key up, \<open>insert\<close> stores a value, \<open>size\<close> counts the
  entries and \<open>clear\<close> removes them. The cached value is identified by the number of its
  closure state.
\<close>

type_synonym key = "nat \<times> nat \<times> string \<times> nat list"

type_synonym cache = "(key \<times> nat) list"

definition cache_at :: "cache \<Rightarrow> key \<Rightarrow> nat option" where
  "cache_at c k = map_of c k"

definition cache_insert :: "cache \<Rightarrow> key \<Rightarrow> nat \<Rightarrow> cache" where
  "cache_insert c k v = AList.update k v c"

definition cache_size :: "cache \<Rightarrow> nat" where
  "cache_size c = length c"

definition cache_clear :: "cache \<Rightarrow> cache" where
  "cache_clear c = []"

text \<open>
  The state the wrapper works on: the module-level variable \<open>compile_cache\<close> (line 413),
  which refers to a cache object or is \<open>None\<close>; the cache objects by address, with the next
  free address; the closure states of the compiled units, with the next free number; and the
  calls made so far.
\<close>

record 'v world =
  compile_cache :: "nat option"
  cache_heap :: "nat \<Rightarrow> cache"
  next_addr :: nat
  units :: "nat \<Rightarrow> 'v compiled_state"
  next_unit :: nat
  calls :: "event list"

text \<open>
  What the closure \<open>returned_function\<close> captures from \<open>compiled_function\<close> (lines 440-449),
  with the tracer \<open>make_fx\<close> and the signature derivation of the cache, which are external.
\<close>

record 'v wrapped =
  fn_id :: nat
  flat_fn :: "'v list \<Rightarrow> error + 'v pyval"
  make_fx :: "bool \<Rightarrow> 'v list \<Rightarrow> 'v pyval \<Rightarrow> error + fx_module"
  fw_compiler :: "graph \<Rightarrow> 'v list \<Rightarrow> error + 'v exe"
  bw_compiler :: "graph \<Rightarrow> 'v list \<Rightarrow> error + 'v exe"
  partition_fn :: "fx_module \<Rightarrow> error + graph \<times> graph"
  decompose :: bool
  hasher_type :: string
  signature :: "string \<Rightarrow> 'v list \<Rightarrow> nat list"

definition log_call :: "event \<Rightarrow> 'v world \<Rightarrow> 'v world" where
  "log_call e w = w\<lparr>calls := calls w @ [e]\<rparr>"

definition upd_unit :: "nat \<Rightarrow> ('v compiled_state \<Rightarrow> 'v compiled_state) \<Rightarrow> 'v world \<Rightarrow> 'v world" where
  "upd_unit u f w = w\<lparr>units := (units w)(u := f (units w u))\<rparr>"

definition init_world :: "'v world" where
  "init_world =
     \<lparr>compile_cache = None, cache_heap = (\<lambda>a. []), next_addr = 0,
      units = (\<lambda>u. \<lparr>compiled_fw = None, compiled_bw = None, num_outs = None\<rparr>), next_unit = 0,
      calls = []\<rparr>"

text \<open>
  \<open>CompiledFunction.forward\<close> (lines 353-389) for the unit with closure state \<open>u\<close>. It
  returns the outputs for the caller together with the tensors saved for backward, or the
  exception raised, and the state it leaves behind: the assignments made before an exception
  remain. The diagnostic print of lines 377-383 is left out.
\<close>

definition forward ::
  "'v wrapped \<Rightarrow> nat \<Rightarrow> 'v world \<Rightarrow> 'v list \<Rightarrow> (error + 'v list \<times> 'v list) \<times> 'v world" where
  "forward cl u w flat_args =
     (case compiled_fw (units w u) of
        None \<Rightarrow>
          (let w1 = log_call CallFlatFn w in
           case flat_fn cl flat_args of
             Inl e \<Rightarrow> (Inl e, w1)
           | Inr out \<Rightarrow>
               (let n = (case out of PyTuple xs \<Rightarrow> length xs | PyList xs \<Rightarrow> length xs | PyObj x \<Rightarrow> 1);
                    w2 = log_call CallMakeFx (upd_unit u (\<lambda>s. s\<lparr>num_outs := Some n\<rparr>) w1) in
                case make_fx cl (decompose cl) flat_args out of
                  Inl e \<Rightarrow> (Inl e, w2)
                | Inr fx_g \<Rightarrow>
                    (let w3 = log_call CallPartitionFn w2 in
                     case partition_fn cl fx_g of
                       Inl e \<Rightarrow> (Inl e, w3)
                     | Inr (fw_module, bw_module) \<Rightarrow>
                         (let w4 = log_call CallFwCompiler w3 in
                          case fw_compiler cl fw_module flat_args of
                            Inl e \<Rightarrow> (Inl e, w4)
                          | Inr cfw \<Rightarrow>
                              (let w5 = log_call CallCompiledFw
                                          (upd_unit u (\<lambda>s. s\<lparr>compiled_fw := Some cfw\<rparr>) w4) in
                               case cfw flat_args of
                                 Inl e \<Rightarrow> (Inl e, w5)
                               | Inr r \<Rightarrow>
                                   (let fw_outs = normalize_as_list r;
                                        bw_args = drop n fw_outs @ take n fw_outs;
                                        w6 = log_call CallBwCompiler w5 in
                                    case bw_compiler cl bw_module bw_args of
                                      Inl e \<Rightarrow> (Inl e, w6)
                                    | Inr cbw \<Rightarrow>
                                        (Inr (take n fw_outs, drop n fw_outs),
                                         upd_unit u (\<lambda>s. s\<lparr>compiled_bw := Some cbw\<rparr>) w6)))))))
      | Some cfw \<Rightarrow>
          (let w1 = log_call CallCompiledFw w in
           case cfw flat_args of
             Inl e \<Rightarrow> (Inl e, w1)
           | Inr r \<Rightarrow>
               (let fw_outs = normalize_as_list r in
                case num_outs (units w u) of
                  None \<Rightarrow> (Inr (fw_outs, fw_outs), w1)
                | Some n \<Rightarrow> (Inr (take n fw_outs, drop n fw_outs), w1))))"

text \<open>
  \<open>compiled_function\<close> (lines 440-489): what it does when a function is wrapped (lines
  443-445), and the returned closure \<open>returned_function\<close> (lines 450-487). The closure reads
  the global \<open>compile_cache\<close> when it is called; \<open>compile_cache.at\<close> on \<open>None\<close> is an
  \<open>AttributeError\<close>. The result is the flat output list that \<open>out_spec.unflatten\<close> receives.
\<close>

definition compiled_function :: "'v world \<Rightarrow> 'v world" where
  "compiled_function w =
     (case compile_cache w of
        None \<Rightarrow> w\<lparr>compile_cache := Some (next_addr w),
                   cache_heap := (cache_heap w)(next_addr w := []),
                   next_addr := Suc (next_addr w)\<rparr>
      | Some a \<Rightarrow> w)"

definition cache_key :: "'v wrapped \<Rightarrow> 'v list \<Rightarrow> key" where
  "cache_key cl flattened_args =
     (fn_id cl, length flattened_args, hasher_type cl, signature cl (hasher_type cl) flattened_args)"

definition returned_function ::
  "'v wrapped \<Rightarrow> 'v world \<Rightarrow> 'v list \<Rightarrow> (error + 'v list) \<times> 'v world" where
  "returned_function cl w flattened_args =
     (case compile_cache w of
        None \<Rightarrow> (Inl AttributeError, w)
      | Some a \<Rightarrow>
          (let k = cache_key cl flattened_args;
               (u, w1) =
                 (case cache_at (cache_heap w a) k of
                    Some u \<Rightarrow> (u, w)
                  | None \<Rightarrow>
                      (next_unit w,
                       w\<lparr>units := (units w)(next_unit w :=
                                      \<lparr>compiled_fw = None, compiled_bw = None, num_outs = None\<rparr>),
                         next_unit := Suc (next_unit w),
                         cache_heap := (cache_heap w)(a := cache_insert (cache_heap w a) k (next_unit w))\<rparr>))
           in case forward cl u w1 flattened_args of
                (Inl e, w2) \<Rightarrow> (Inl e, w2)
              | (Inr (outs, saved), w2) \<Rightarrow> (Inr outs, w2)))"

text \<open>\<open>num_of_recompilations\<close> and \<open>clear_compile_cache\<close> (lines 492-503).\<close>

definition num_of_recompilations :: "'v world \<Rightarrow> nat" where
  "num_of_recompilations w =
     (case compile_cache w of None \<Rightarrow> 0 | Some a \<Rightarrow> cache_size (cache_heap w a))"

definition clear_compile_cache :: "'v world \<Rightarrow> 'v world" where
  "clear_compile_cache w =
     (case compile_cache w of
        None \<Rightarrow> w
      | Some a \<Rightarrow> w\<lparr>cache_heap := (cache_heap w)(a := cache_clear (cache_heap w a)),
                     compile_cache := None\<rparr>)"

text \<open>The cache object that \<open>compile_cache\<close> refers to was allocated earlier.\<close>

definition wf_world :: "'v world \<Rightarrow> bool" where
  "wf_world w = (case compile_cache w of None \<Rightarrow> True | Some a \<Rightarrow> a < next_addr w)"

text \<open>The state after a cache miss has created and cached a new unit (lines 474-481).\<close>

definition miss_world :: "'v wrapped \<Rightarrow> 'v world \<Rightarrow> nat \<Rightarrow> 'v list \<Rightarrow> 'v world" where
  "miss_world cl w a xs =
     w\<lparr>units := (units w)(next_unit w := \<lparr>compiled_fw = None, compiled_bw = None, num_outs = None\<rparr>),
       next_unit := Suc (next_unit w),
       cache_heap := (cache_heap w)(a := cache_insert (cache_heap w a) (cache_key cl xs) (next_unit w))\<rparr>"

text \<open>The error raised at line 230.\<close>

definition networkx_error :: error where
  "networkx_error = RuntimeError ''Need networkx installed to perform smart recomputation heuristics''"

text \<open>
  Example closures on integers for \<open>f(x) = x * x\<close>, traced to \<open>ex_module\<close>: one whose
  compilers work, one whose forward compiler raises, one whose backward compiler raises,
  one with the recompute-aware partitioner where \<open>networkx\<close> is missing, and one where in
  addition the tracer raises. \<open>ex_world\<close> is the state after the first wrapping.
\<close>

definition ex_cl :: "int wrapped" where
  "ex_cl =
     \<lparr>fn_id = 1,
      flat_fn = (\<lambda>xs. Inr (PyList (map (\<lambda>x. x * x) xs))),
      make_fx = (\<lambda>d xs out. Inr ex_module),
      fw_compiler = (\<lambda>g xs. Inr (\<lambda>ys. Inr (PyList (map (\<lambda>x. x * x) ys @ map (\<lambda>x. x * x) ys @ ys)))),
      bw_compiler = (\<lambda>g xs. Inr (\<lambda>ys. Inr (PyList [ys ! 2 * ys ! 0 * ys ! 1]))),
      partition_fn = default_partition (\<lambda>xs. xs),
      decompose = False,
      hasher_type = ''StaticShapeHasher'',
      signature = (\<lambda>h xs. [length xs])\<rparr>"

definition ex_cl_fw_fails :: "int wrapped" where
  "ex_cl_fw_fails = ex_cl\<lparr>fw_compiler := (\<lambda>g xs. Inl (External ''fw_compiler''))\<rparr>"

definition ex_cl_bw_fails :: "int wrapped" where
  "ex_cl_bw_fails = ex_cl\<lparr>bw_compiler := (\<lambda>g xs. Inl (External ''bw_compiler''))\<rparr>"

definition ex_cl_no_networkx :: "int wrapped" where
  "ex_cl_no_networkx =
     ex_cl\<lparr>partition_fn :=
              partition_with_recompute_fwd_in_bwd False (\<lambda>G s t. Inl NetworkXUnbounded) (\<lambda>xs. xs)\<rparr>"

definition ex_cl_trace_fails :: "int wrapped" where
  "ex_cl_trace_fails = ex_cl_no_networkx\<lparr>make_fx := (\<lambda>d xs out. Inl (External ''make_fx''))\<rparr>"

definition ex_world :: "int world" where
  "ex_world = compiled_function init_world"

section \<open>Properties\<close>

lemma grad_out_routing:
  "length (filter (\<lambda>b. b) ps) \<le> length out \<Longrightarrow>
   \<exists>gs. grad_out ps out = Inr gs \<and> length gs = length ps \<and>
        (\<forall>i<length ps. \<not> ps ! i \<longrightarrow> gs ! i = None) \<and>
        map snd (filter fst (zip ps gs)) = map Some (take (length (filter (\<lambda>b. b) ps)) out)"
proof (induction ps arbitrary: out)
  case Nil
  then show ?case by simp
next
  case (Cons p ps)
  show ?case
  proof (cases p)
    case True
    with Cons.prems obtain g rest where out: "out = g # rest"
      by (cases out) auto
    with Cons.prems True have "length (filter (\<lambda>b. b) ps) \<le> length rest" by simp
    from Cons.IH[OF this] obtain gs where
      gs: "grad_out ps rest = Inr gs" "length gs = length ps"
          "\<forall>i<length ps. \<not> ps ! i \<longrightarrow> gs ! i = None"
          "map snd (filter fst (zip ps gs)) = map Some (take (length (filter (\<lambda>b. b) ps)) rest)"
      by blast
    have "\<forall>i<length (p # ps). \<not> (p # ps) ! i \<longrightarrow> (Some g # gs) ! i = None"
      using gs(3) True by (auto simp: nth_Cons split: nat.splits)
    with gs True out show ?thesis by simp
  next
    case False
    with Cons.prems have "length (filter (\<lambda>b. b) ps) \<le> length out" by simp
    from Cons.IH[OF this] obtain gs where
      gs: "grad_out ps out = Inr gs" "length gs = length ps"
          "\<forall>i<length ps. \<not> ps ! i \<longrightarrow> gs ! i = None"
          "map snd (filter fst (zip ps gs)) = map Some (take (length (filter (\<lambda>b. b) ps)) out)"
      by blast
    have "\<forall>i<length (p # ps). \<not> (p # ps) ! i \<longrightarrow> (None # gs) ! i = None"
      using gs(3) False by (auto simp: nth_Cons split: nat.splits)
    with gs False show ?thesis by simp
  qed
qed

text \<open>
  Gradient routing of a unit whose backward has been compiled. Let the forward call have
  had \<open>n\<close> flattened inputs, of which those marked in \<open>needs_input_grad\<close> (the subset \<open>S\<close>)
  require gradients, and let the compiled backward return the results \<open>out\<close>, as a tuple, as
  a list or, when there is one, as a single object, at least \<open>|S|\<close> of them. Then the backward
  call returns exactly \<open>n\<close> slots, every position outside \<open>S\<close> holds \<open>None\<close>, and the positions
  in \<open>S\<close>, read in input order, hold the first \<open>|S|\<close> results in their order.
\<close>

lemma backward_routing_compiled:
  assumes "bw (saved_tensors c @ flat_args) = Inr r"
    and "r = PyTuple out \<or> r = PyList out \<or> (\<exists>x. r = PyObj x \<and> out = [x])"
    and "length (filter (\<lambda>b. b) (needs_input_grad c)) \<le> length out"
  shows "\<exists>slots. backward (Some bw) c flat_args = Inr slots \<and>
           length slots = length (needs_input_grad c) \<and>
           (\<forall>i<length (needs_input_grad c). \<not> needs_input_grad c ! i \<longrightarrow> slots ! i = None) \<and>
           map snd (filter fst (zip (needs_input_grad c) slots)) =
             map Some (take (length (filter (\<lambda>b. b) (needs_input_grad c))) out)"
proof -
  from assms(2) have "normalize_as_list r = out" by auto
  with grad_out_routing[OF assms(3)] assms(1) show ?thesis by (simp add: backward_def)
qed

lemma backward_routing_compiled_examples:
  "backward (Some (\<lambda>xs. Inr (PyTuple [hd xs + 1, hd xs + (2::int)])))
     \<lparr>saved_tensors = [10], needs_input_grad = [True, False, True]\<rparr> [7] =
     Inr [Some 11, None, Some 12]"
  "backward (Some (\<lambda>xs. Inr (PyList [hd xs + 1, hd xs + (2::int)])))
     \<lparr>saved_tensors = [10], needs_input_grad = [True, False, True]\<rparr> [7] =
     Inr [Some 11, None, Some 12]"
  "backward (Some (\<lambda>xs. Inr (PyObj (hd xs + (1::int)))))
     \<lparr>saved_tensors = [10], needs_input_grad = [False, True]\<rparr> [7] = Inr [None, Some 11]"
  "backward (Some (\<lambda>xs. Inr (PyObj (hd xs + (1::int)))))
     \<lparr>saved_tensors = [10], needs_input_grad = [True, True]\<rparr> [7] = Inl StopIteration"
  by (simp_all add: backward_def)

lemma topo_append:
  "topo seen (g @ h) = (topo seen g \<and> topo (seen @ map name g) h)"
  by (induction g arbitrary: seen) auto

lemma topo_disjoint: "topo seen g \<Longrightarrow> set seen \<inter> name ` set g = {}"
proof (induction g arbitrary: seen)
  case Nil
  then show ?case by simp
next
  case (Cons n g)
  from Cons.prems have "topo (seen @ [name n]) g" and "name n \<notin> set seen" by simp_all
  from Cons.IH[OF this(1)] this(2) show ?case by auto
qed

lemma topo_distinct: "topo seen g \<Longrightarrow> distinct (map name g)"
proof (induction g arbitrary: seen)
  case Nil
  then show ?case by simp
next
  case (Cons n g)
  from Cons.prems have t: "topo (seen @ [name n]) g" by simp
  from topo_disjoint[OF t] have "name n \<notin> name ` set g" by auto
  with Cons.IH[OF t] show ?case by simp
qed

lemma wf_graph_snoc:
  "wf_graph (g @ [n]) = (wf_graph g \<and> name n \<notin> name ` set g \<and> set (node_refs n) \<subseteq> name ` set g \<and>
     (op n = Placeholder \<longrightarrow> node_refs n = []))"
  by (auto simp: wf_graph_def topo_append)

lemma color_graph_snoc: "color_graph (g @ [n]) = color_node (color_graph g) n"
  by (simp add: color_graph_def)

lemma set_foldl_add_saved:
  "set (foldl (add_saved bw) s rs) = set s \<union> {a \<in> set rs. a \<notin> bw}"
  by (induction rs arbitrary: s) (auto simp: add_saved_def)

lemma distinct_foldl_add_saved:
  "distinct s \<Longrightarrow> distinct (foldl (add_saved bw) s rs)"
  by (induction rs arbitrary: s) (auto simp: add_saved_def)

lemma color_node_cases:
  "color_node c n = c\<lparr>bw_nodes := insert (name n) (bw_nodes c)\<rparr> \<and> is_tangent n
   \<or> (color_node c n = c\<lparr>bw_nodes := insert (name n) (bw_nodes c),
         saved_nodes := foldl (add_saved (insert (name n) (bw_nodes c))) (saved_nodes c) (node_refs n)\<rparr>
       \<and> \<not> is_tangent n \<and> op n \<noteq> Output
       \<and> (\<exists>a \<in> set (node_refs n). a \<in> bw_nodes c \<or> a \<in> set (saved_nodes c)))
   \<or> (bw_nodes (color_node c n) = bw_nodes c \<and> saved_nodes (color_node c n) = saved_nodes c \<and> \<not> is_tangent n
       \<and> (op n = Output \<or> \<not> (\<exists>a \<in> set (node_refs n). a \<in> bw_nodes c \<or> a \<in> set (saved_nodes c))))"
  by (auto simp: color_node_def is_tangent_def Let_def)

lemma color_inv_step:
  assumes inv: "color_inv g c" and fresh: "name n \<notin> name ` set g"
    and refs: "set (node_refs n) \<subseteq> name ` set g"
    and ph: "op n = Placeholder \<longrightarrow> node_refs n = []"
  shows "color_inv (g @ [n]) (color_node c n)"
proof -
  from inv have bw: "bw_nodes c \<subseteq> name ` set g" and sv: "set (saved_nodes c) \<subseteq> name ` set g"
    and sp: "saved_spec g c" by (simp_all add: color_inv_def)
  from bw fresh have nbw: "name n \<notin> bw_nodes c" by auto
  from sv fresh have nsv: "name n \<notin> set (saved_nodes c)" by auto
  from refs fresh have nrf: "name n \<notin> set (node_refs n)" by auto
  have fr: "name m \<noteq> name n" if "m \<in> set g" for m
    using that fresh by (metis imageI)
  consider
    (tan) "color_node c n = c\<lparr>bw_nodes := insert (name n) (bw_nodes c)\<rparr>" "is_tangent n"
  | (col) "color_node c n = c\<lparr>bw_nodes := insert (name n) (bw_nodes c),
         saved_nodes := foldl (add_saved (insert (name n) (bw_nodes c))) (saved_nodes c) (node_refs n)\<rparr>"
  | (non) "bw_nodes (color_node c n) = bw_nodes c" "saved_nodes (color_node c n) = saved_nodes c"
    using color_node_cases[of c n] by blast
  then show ?thesis
  proof cases
    case tan
    from tan(2) ph have rn: "node_refs n = []" by (simp add: is_tangent_def)
    have "saved_spec (g @ [n]) (color_node c n)"
      unfolding saved_spec_def
    proof (intro allI iffI)
      fix a assume "a \<in> set (saved_nodes (color_node c n))"
      with tan(1) have a: "a \<in> set (saved_nodes c)" by simp
      with sp obtain m where "a \<notin> bw_nodes c" "m \<in> set g" "name m \<in> bw_nodes c" "a \<in> set (node_refs m)"
        unfolding saved_spec_def by blast
      moreover from a nsv have "a \<noteq> name n" by auto
      ultimately show "a \<notin> bw_nodes (color_node c n) \<and>
         (\<exists>m\<in>set (g @ [n]). name m \<in> bw_nodes (color_node c n) \<and> a \<in> set (node_refs m))"
        using tan(1) by auto
    next
      fix a assume "a \<notin> bw_nodes (color_node c n) \<and>
         (\<exists>m\<in>set (g @ [n]). name m \<in> bw_nodes (color_node c n) \<and> a \<in> set (node_refs m))"
      then obtain m where a: "a \<notin> bw_nodes c" and m: "m \<in> set (g @ [n])"
        "name m \<in> insert (name n) (bw_nodes c)" "a \<in> set (node_refs m)"
        using tan(1) by auto
      from m(3) rn have "m \<noteq> n" by auto
      with m(1) have mg: "m \<in> set g" by simp
      then have "name m \<noteq> name n" by (rule fr)
      with m(2) have "name m \<in> bw_nodes c" by simp
      with sp a mg m(3) have "a \<in> set (saved_nodes c)" unfolding saved_spec_def by blast
      with tan(1) show "a \<in> set (saved_nodes (color_node c n))" by simp
    qed
    with bw sv tan(1) show ?thesis by (auto simp: color_inv_def)
  next
    case col
    have svs: "set (saved_nodes (color_node c n)) = set (saved_nodes c) \<union> {a \<in> set (node_refs n). a \<notin> bw_nodes c}"
      using col nrf by (auto simp: set_foldl_add_saved)
    have bws: "bw_nodes (color_node c n) = insert (name n) (bw_nodes c)" using col by simp
    have "saved_spec (g @ [n]) (color_node c n)"
      unfolding saved_spec_def
    proof (intro allI iffI)
      fix a assume "a \<in> set (saved_nodes (color_node c n))"
      then consider "a \<in> set (saved_nodes c)" | "a \<in> set (node_refs n)" "a \<notin> bw_nodes c"
        using svs by auto
      then show "a \<notin> bw_nodes (color_node c n) \<and>
         (\<exists>m\<in>set (g @ [n]). name m \<in> bw_nodes (color_node c n) \<and> a \<in> set (node_refs m))"
      proof cases
        case 1
        with sp obtain m where "a \<notin> bw_nodes c" "m \<in> set g" "name m \<in> bw_nodes c" "a \<in> set (node_refs m)"
          unfolding saved_spec_def by blast
        moreover from 1 nsv have "a \<noteq> name n" by auto
        ultimately show ?thesis using bws by auto
      next
        case 2
        from 2(1) nrf have "a \<noteq> name n" by auto
        with 2 bws show ?thesis by auto
      qed
    next
      fix a assume "a \<notin> bw_nodes (color_node c n) \<and>
         (\<exists>m\<in>set (g @ [n]). name m \<in> bw_nodes (color_node c n) \<and> a \<in> set (node_refs m))"
      then obtain m where a: "a \<notin> bw_nodes c" and m: "m \<in> set (g @ [n])"
        "name m \<in> insert (name n) (bw_nodes c)" "a \<in> set (node_refs m)"
        using bws by auto
      show "a \<in> set (saved_nodes (color_node c n))"
      proof (cases "m = n")
        case True
        with m(3) a svs show ?thesis by auto
      next
        case False
        with m(1) have mg: "m \<in> set g" by simp
        then have "name m \<noteq> name n" by (rule fr)
        with m(2) have "name m \<in> bw_nodes c" by simp
        with sp a mg m(3) have "a \<in> set (saved_nodes c)" unfolding saved_spec_def by blast
        with svs show ?thesis by simp
      qed
    qed
    moreover from bws bw have "bw_nodes (color_node c n) \<subseteq> name ` set (g @ [n])" by auto
    moreover from svs sv refs have "set (saved_nodes (color_node c n)) \<subseteq> name ` set (g @ [n])" by auto
    ultimately show ?thesis by (simp add: color_inv_def)
  next
    case non
    have "saved_spec (g @ [n]) (color_node c n)"
      unfolding saved_spec_def
    proof (intro allI iffI)
      fix a assume "a \<in> set (saved_nodes (color_node c n))"
      with non sp show "a \<notin> bw_nodes (color_node c n) \<and>
         (\<exists>m\<in>set (g @ [n]). name m \<in> bw_nodes (color_node c n) \<and> a \<in> set (node_refs m))"
        unfolding saved_spec_def by auto
    next
      fix a assume "a \<notin> bw_nodes (color_node c n) \<and>
         (\<exists>m\<in>set (g @ [n]). name m \<in> bw_nodes (color_node c n) \<and> a \<in> set (node_refs m))"
      then obtain m where a: "a \<notin> bw_nodes c" and m: "m \<in> set (g @ [n])"
        "name m \<in> bw_nodes c" "a \<in> set (node_refs m)"
        using non by auto
      from m(2) nbw have "m \<noteq> n" by auto
      with m(1) have "m \<in> set g" by simp
      with sp a m have "a \<in> set (saved_nodes c)" unfolding saved_spec_def by blast
      with non show "a \<in> set (saved_nodes (color_node c n))" by simp
    qed
    with bw sv non show ?thesis by (auto simp: color_inv_def)
  qed
qed

lemma color_inv_graph: "wf_graph g \<Longrightarrow> color_inv g (color_graph g)"
proof (induction g rule: rev_induct)
  case Nil
  then show ?case by (simp add: color_inv_def saved_spec_def color_graph_def)
next
  case (snoc n g)
  then show ?case
    by (simp add: wf_graph_snoc color_graph_snoc color_inv_step)
qed

lemma bw_nodes_color_node:
  "bw_nodes (color_node c n) = bw_nodes c \<or> bw_nodes (color_node c n) = insert (name n) (bw_nodes c)"
  using color_node_cases[of c n] by auto

lemma bw_nodes_foldl_upper:
  "bw_nodes (foldl color_node c ns) \<subseteq> bw_nodes c \<union> name ` set ns"
proof (induction ns arbitrary: c)
  case Nil
  then show ?case by simp
next
  case (Cons n ns)
  from Cons.IH[of "color_node c n"] bw_nodes_color_node[of c n] show ?case by auto
qed

lemma bw_nodes_foldl_lower:
  "bw_nodes c \<subseteq> bw_nodes (foldl color_node c ns)"
proof (induction ns arbitrary: c)
  case Nil
  then show ?case by simp
next
  case (Cons n ns)
  from Cons.IH[of "color_node c n"] bw_nodes_color_node[of c n] show ?case by auto
qed

lemma color_graph_split:
  "color_graph (pre @ n # post) = foldl color_node (color_node (color_graph pre) n) post"
  by (simp add: color_graph_def)

text \<open>
  C3, as amended. Let \<open>g\<close> be a well-formed joint graph and \<open>n\<close> one of its nodes, reached by
  the walk after the prefix \<open>pre\<close>. Then \<open>n\<close> ends in the backward set if and only if it is a
  tangent placeholder, or it is not the output node and one of its arguments (positional or
  keyword) is in the backward set or in the saved set when \<open>n\<close> is reached; the output node is
  never placed in the backward set. And \<open>n\<close> ends in the saved set if and only if it is not in
  the backward set and some backward-set node refers to it as an argument.
\<close>

theorem default_partition_coloring:
  assumes "wf_graph g" and "g = pre @ n # post"
  shows "(name n \<in> bw_nodes (color_graph g) \<longleftrightarrow>
            is_tangent n \<or>
            (op n \<noteq> Output \<and>
             (\<exists>a\<in>set (node_refs n).
                a \<in> bw_nodes (color_graph pre) \<or> a \<in> set (saved_nodes (color_graph pre))))) \<and>
         (name n \<in> set (saved_nodes (color_graph g)) \<longleftrightarrow>
            name n \<notin> bw_nodes (color_graph g) \<and>
            (\<exists>m\<in>set g. name m \<in> bw_nodes (color_graph g) \<and> name n \<in> set (node_refs m)))"
proof
  let ?c0 = "color_graph pre"
  from assms have t: "topo [] (pre @ n # post)" by (simp add: wf_graph_def)
  then have d: "distinct (map name (pre @ n # post))" by (rule topo_distinct)
  from t have "wf_graph pre" by (simp add: wf_graph_def topo_append)
  then have "bw_nodes ?c0 \<subseteq> name ` set pre" using color_inv_graph by (simp add: color_inv_def)
  with d have n0: "name n \<notin> bw_nodes ?c0" by auto
  from d have np: "name n \<notin> name ` set post" by auto
  have fin: "name n \<in> bw_nodes (color_graph g) \<longleftrightarrow> name n \<in> bw_nodes (color_node ?c0 n)"
    using bw_nodes_foldl_upper[of "color_node ?c0 n" post]
          bw_nodes_foldl_lower[of "color_node ?c0 n" post] np
    by (auto simp: assms(2) color_graph_split)
  have "is_tangent n \<Longrightarrow> op n \<noteq> Output" by (simp add: is_tangent_def)
  then show "name n \<in> bw_nodes (color_graph g) \<longleftrightarrow>
            is_tangent n \<or>
            (op n \<noteq> Output \<and>
             (\<exists>a\<in>set (node_refs n).
                a \<in> bw_nodes (color_graph pre) \<or> a \<in> set (saved_nodes (color_graph pre))))"
    unfolding fin using color_node_cases[of ?c0 n] n0 by auto
next
  from color_inv_graph[OF assms(1)] have "saved_spec g (color_graph g)"
    by (simp add: color_inv_def)
  then show "name n \<in> set (saved_nodes (color_graph g)) \<longleftrightarrow>
            name n \<notin> bw_nodes (color_graph g) \<and>
            (\<exists>m\<in>set g. name m \<in> bw_nodes (color_graph g) \<and> name n \<in> set (node_refs m))"
    unfolding saved_spec_def by blast
qed

lemma ex_joint_color:
  "color_graph ex_joint =
     \<lparr>bw_nodes = {''mul_2'', ''mul_1'', ''tangents_1''}, saved_nodes = [''mul'', ''primals_1''],
      output_node = Some (ex_joint ! 5)\<rparr>"
  by (simp add: ex_joint_def color_graph_def color_node_def node_refs_def add_saved_def Let_def)

lemma wf_ex_joint: "wf_graph ex_joint"
  by (simp add: wf_graph_def ex_joint_def node_refs_def)

theorem default_partition_coloring_witness:
  "wf_graph ex_joint \<and> ex_joint = take 3 ex_joint @ ex_joint ! 3 # drop 4 ex_joint \<and>
   ''mul_1'' \<in> bw_nodes (color_graph ex_joint) \<and> \<not> is_tangent (ex_joint ! 3) \<and>
   ''tangents_1'' \<in> bw_nodes (color_graph (take 3 ex_joint)) \<and>
   ''mul_1'' \<notin> set (saved_nodes (color_graph ex_joint))"
  using default_partition_coloring[of ex_joint "take 3 ex_joint" "ex_joint ! 3" "drop 4 ex_joint"]
    wf_ex_joint
  by (simp add: ex_joint_color)
     (simp add: ex_joint_def color_graph_def color_node_def node_refs_def add_saved_def Let_def
        is_tangent_def)

text \<open>
  C3 as stated fails at the output node: in \<open>ex_joint\<close> the output node has the argument
  \<open>mul_2\<close>, which is in the backward set when the walk reaches the output node, and yet the
  output node is not placed in the backward set (line 48 excludes it).
\<close>

theorem coloring_output_counterexample:
  "''mul_2'' \<in> set (node_refs (ex_joint ! 5)) \<and>
   ''mul_2'' \<in> bw_nodes (color_graph (take 5 ex_joint)) \<and>
   name (ex_joint ! 5) \<notin> bw_nodes (color_graph ex_joint)"
  by (simp add: ex_joint_def color_graph_def color_node_def node_refs_def add_saved_def Let_def)

lemma create_name_unused: "c \<notin> set used \<Longrightarrow> create_name used c = c"
  by (simp add: create_name_def)

lemma distinct_saved_color_node:
  "distinct (saved_nodes c) \<Longrightarrow> distinct (saved_nodes (color_node c n))"
  by (auto simp: color_node_def Let_def distinct_foldl_add_saved)

lemma distinct_saved_foldl:
  "distinct (saved_nodes c) \<Longrightarrow> distinct (saved_nodes (foldl color_node c ns))"
  by (induction ns arbitrary: c) (simp_all add: distinct_saved_color_node)

lemma distinct_saved_color_graph: "distinct (saved_nodes (color_graph g))"
  by (simp add: color_graph_def distinct_saved_foldl)

lemma copy_nodes_remap_id:
  "distinct (map name (pre @ ns)) \<Longrightarrow> name ` set g \<subseteq> name ` set pre \<Longrightarrow> remap_id vr \<Longrightarrow>
   copy_nodes P ns (g, vr) = Inr (g', vr') \<Longrightarrow> remap_id vr'"
proof (induction ns arbitrary: pre g vr)
  case Nil
  then show ?case by simp
next
  case (Cons n ns)
  from Cons.prems(1) have d: "distinct (map name ((pre @ [n]) @ ns))" by simp
  from Cons.prems(1) have fresh: "name n \<notin> name ` set pre" by auto
  show ?case
  proof (cases "P n")
    case False
    with Cons.prems(4) have c: "copy_nodes P ns (g, vr) = Inr (g', vr')" by simp
    from Cons.prems(2) have "name ` set g \<subseteq> name ` set (pre @ [n])" by auto
    from Cons.IH[OF d this Cons.prems(3) c] show ?thesis .
  next
    case True
    with Cons.prems(4) obtain g1 nm where
      nc: "node_copy g n (remap_node vr) = Inr (g1, nm)"
      and c: "copy_nodes P ns (g1, (name n, nm) # vr) = Inr (g', vr')"
      by (auto split: sum.splits)
    from fresh Cons.prems(2) have "name n \<notin> set (map name g)" by auto
    then have cn: "create_name (map name g) (name n) = name n" by (rule create_name_unused)
    from nc cn have nm: "nm = name n" and g1: "name ` set g1 = insert (name n) (name ` set g)"
      by (auto simp: node_copy_def create_node_def Let_def split: sum.splits)
    from g1 Cons.prems(2) have sub: "name ` set g1 \<subseteq> name ` set (pre @ [n])" by auto
    from Cons.prems(3) nm have "remap_id ((name n, nm) # vr)" by (simp add: remap_id_def)
    from Cons.IH[OF d sub this c] show ?thesis .
  qed
qed

lemma remap_item_id:
  "remap_id vr \<Longrightarrow> map_err (remap_item vr) xs = Inr ys \<Longrightarrow> ys = xs"
proof (induction xs arbitrary: ys)
  case Nil
  then show ?case by simp
next
  case (Cons x xs)
  from Cons.prems(2) obtain y ys' where y: "remap_item vr x = Inr y"
    and r: "map_err (remap_item vr) xs = Inr ys'" and ys: "ys = y # ys'"
    by (auto split: sum.splits)
  from y Cons.prems(1) have "y = x"
    by (cases x) (auto simp: remap_node_def remap_get_def remap_id_def split: option.splits sum.splits)
  with Cons.IH[OF Cons.prems(1) r] ys show ?case by simp
qed

lemma remap_get_id:
  "remap_id vr \<Longrightarrow> map_err (remap_get vr) xs = Inr ys \<Longrightarrow> ys = xs"
proof (induction xs arbitrary: ys)
  case Nil
  then show ?case by simp
next
  case (Cons x xs)
  from Cons.prems(2) obtain y ys' where y: "remap_get vr x = Inr y"
    and r: "map_err (remap_get vr) xs = Inr ys'" and ys: "ys = y # ys'"
    by (auto split: sum.splits)
  from y Cons.prems(1) have "y = x"
    by (auto simp: remap_get_def remap_id_def split: option.splits)
  with Cons.IH[OF Cons.prems(1) r] ys show ?case by simp
qed

lemma last_graph_output:
  "op (last (graph_output g r)) = Output \<and> args (last (graph_output g r)) = [r]"
  by (simp add: graph_output_def create_node_def Let_def)

text \<open>
  C4, as amended. When \<open>default_partition\<close> returns on a well-formed joint graph, the output
  node of the forward graph lists the first \<open>num_fwd_outputs\<close> joint outputs followed by the
  saved values, each saved value exactly once, in the order in which Python iterates over the
  set \<open>saved_nodes\<close> (a list of exactly one element is replaced by that element).
\<close>

theorem default_partition_forward_outputs:
  assumes wf: "wf_graph (nodes fx)"
    and dp: "default_partition set_iter fx = Inr (fw_module, bw_module)"
    and it: "mset (set_iter (saved_nodes (color_graph (nodes fx)))) =
             mset (saved_nodes (color_graph (nodes fx)))"
  shows "\<exists>out outs rest.
           output_node (color_graph (nodes fx)) = Some out \<and> args out = ASeq outs # rest \<and>
           op (last fw_module) = Output \<and>
           args (last fw_module) =
             [unwrap_single (take (num_fwd_outputs fx) outs @
                map ANode (set_iter (saved_nodes (color_graph (nodes fx)))))] \<and>
           distinct (set_iter (saved_nodes (color_graph (nodes fx)))) \<and>
           set (set_iter (saved_nodes (color_graph (nodes fx)))) =
             set (saved_nodes (color_graph (nodes fx)))"
proof -
  let ?c = "color_graph (nodes fx)"
  let ?saved = "set_iter (saved_nodes ?c)"
  from dp obtain out where out: "output_node ?c = Some out"
    by (auto simp: default_partition_def Let_def split: option.splits)
  from dp out obtain outs rest where outs: "args out = ASeq outs # rest"
    by (auto simp: default_partition_def Let_def split: list.splits arg.splits)
  from dp out outs obtain fw_graph vr fwd_outs saved_outs where
    cp: "copy_nodes (\<lambda>n. name n \<notin> bw_nodes ?c \<and> op n \<noteq> Output) (nodes fx) ([], []) = Inr (fw_graph, vr)"
    and fo: "map_err (remap_item vr) (take (num_fwd_outputs fx) outs) = Inr fwd_outs"
    and so: "map_err (remap_get vr) ?saved = Inr saved_outs"
    and fw: "fw_module = graph_output fw_graph (unwrap_single (fwd_outs @ map ANode saved_outs))"
    by (auto simp: default_partition_def Let_def split: sum.splits if_splits prod.splits)
  from wf have "distinct (map name ([] @ nodes fx))"
    using topo_distinct by (simp add: wf_graph_def)
  from copy_nodes_remap_id[OF this _ _ cp] have id: "remap_id vr" by (simp add: remap_id_def)
  from remap_item_id[OF id fo] remap_get_id[OF id so] fw
  have "fw_module = graph_output fw_graph (unwrap_single (take (num_fwd_outputs fx) outs @ map ANode ?saved))"
    by simp
  moreover from it have "distinct ?saved"
    using distinct_saved_color_graph[of "nodes fx"] by (metis mset_eq_imp_distinct_iff)
  moreover from it have "set ?saved = set (saved_nodes ?c)" by (rule mset_eq_setD)
  ultimately show ?thesis using out outs last_graph_output by auto
qed

theorem default_partition_forward_outputs_witness:
  "wf_graph (nodes ex_module) \<and>
   (case default_partition (\<lambda>xs. xs) ex_module of Inr (fw, bw) \<Rightarrow> args (last fw) | Inl e \<Rightarrow> []) =
     [ASeq [ANode ''mul'', ANode ''mul'', ANode ''primals_1'']]"
proof -
  obtain fw bw where dp: "default_partition (\<lambda>xs. xs) ex_module = Inr (fw, bw)"
    by (cases "default_partition (\<lambda>xs. xs) ex_module") (code_simp, auto)
  have wf: "wf_graph (nodes ex_module)" by (simp add: ex_module_def wf_ex_joint)
  have sv: "saved_nodes (color_graph (nodes ex_module)) = [''mul'', ''primals_1'']"
    by (simp add: ex_module_def ex_joint_color)
  have out: "output_node (color_graph (nodes ex_module)) = Some (ex_joint ! 5)"
    by (simp add: ex_module_def ex_joint_color)
  from default_partition_forward_outputs[OF wf dp] sv out
  have "args (last fw) = [ASeq [ANode ''mul'', ANode ''mul'', ANode ''primals_1'']]"
    by (simp add: ex_module_def ex_joint_def unwrap_single_def)
  with wf dp show ?thesis by simp
qed

text \<open>
  C4 as stated fails: the saved set of \<open>ex_module\<close> is discovered in the order \<open>mul\<close>,
  \<open>primals_1\<close>; when the set iterates in the other order, the forward graph lists the saved
  values as \<open>primals_1\<close>, \<open>mul\<close>.
\<close>

theorem forward_outputs_order_counterexample:
  "saved_nodes (color_graph (nodes ex_module)) = [''mul'', ''primals_1''] \<and>
   (case default_partition rev ex_module of Inr (fw, bw) \<Rightarrow> args (last fw) | Inl e \<Rightarrow> []) =
     [ASeq [ANode ''mul'', ANode ''primals_1'', ANode ''mul'']]"
  by code_simp

lemma last_neq: "last xs \<noteq> last ys \<Longrightarrow> xs \<noteq> ys"
  by (rule notI) simp

lemma suffix_neq:
  "a @ ''_in'' \<noteq> ''source''" "a @ ''_in'' \<noteq> ''sink''"
  "a @ ''_out'' \<noteq> ''source''" "a @ ''_out'' \<noteq> ''sink''"
  "a @ ''_in'' \<noteq> b @ ''_out''" "a @ ''_out'' \<noteq> b @ ''_in''"
  "''source'' \<noteq> a @ ''_in''" "''sink'' \<noteq> a @ ''_in''"
  "''source'' \<noteq> a @ ''_out''" "''sink'' \<noteq> a @ ''_out''"
  by (rule last_neq, simp)+

lemma map_of_add_edge:
  "map_of (add_edge G u v c) k = (if k = (u, v) then Some c else map_of G k)"
  by (simp add: add_edge_def update_conv')

lemma map_of_user_edges:
  "fst k \<noteq> a \<Longrightarrow>
   map_of (foldl (\<lambda>G' user. add_edge G' a (f user) \<infinity>) G us) k = map_of G k"
  by (induction us arbitrary: G) (auto simp: map_of_add_edge)

lemma step_inout:
  "map_of (network_step g tc G m) (nm @ ''_in'', nm @ ''_out'') =
     (if name m = nm \<and> nm \<notin> tc then Some (weight m) else map_of G (nm @ ''_in'', nm @ ''_out''))"
  by (simp add: network_step_def Let_def map_of_user_edges map_of_add_edge suffix_neq)

lemma step_source:
  "map_of (network_step g tc G m) (''source'', nm @ ''_in'') =
     (if name m = nm \<and> nm \<notin> tc \<and> (is_input m \<or> target m \<notin> recomputable_ops) then Some \<infinity>
      else map_of G (''source'', nm @ ''_in''))"
  by (simp add: network_step_def Let_def map_of_user_edges map_of_add_edge suffix_neq)

lemma foldl_step_other:
  assumes "\<forall>m\<in>set ns. name m \<noteq> nm"
  shows "map_of (foldl (network_step g tc) G ns) (nm @ ''_in'', nm @ ''_out'') =
           map_of G (nm @ ''_in'', nm @ ''_out'')"
    and "map_of (foldl (network_step g tc) G ns) (''source'', nm @ ''_in'') =
           map_of G (''source'', nm @ ''_in'')"
  using assms by (induction ns arbitrary: G) (simp_all add: step_inout step_source)

text \<open>
  C2, as amended. For every node \<open>n\<close> of a graph with unique names: when \<open>n\<close> is outside the
  tangent closure, the edge from \<open>n_in\<close> to \<open>n_out\<close> has capacity \<open>weight n\<close>, that is
  infinite without tensor metadata, the number of elements for a primal placeholder and twice
  the number of elements otherwise, whether or not the operator is recomputable; a node in
  the tangent closure has no such edge. The classification decides something else: a node
  outside the closure has an infinite edge from the source exactly when it is a primal
  placeholder or its target is not in \<open>recomputable_ops\<close> (pointwise, reduction,
  normalization and cast operators; the view operators are not among them).
\<close>

theorem network_in_out_capacity:
  assumes "distinct (map name g)" and "n \<in> set g"
  shows "map_of (nx_network g) (name n @ ''_in'', name n @ ''_out'') =
           (if name n \<in> tangent_closure g then None else Some (weight n)) \<and>
         map_of (nx_network g) (''source'', name n @ ''_in'') =
           (if name n \<notin> tangent_closure g \<and> (is_input n \<or> target n \<notin> recomputable_ops)
            then Some \<infinity> else None)"
proof -
  from assms(2) obtain pre post where g: "g = pre @ n # post" by (auto simp: in_set_conv_decomp)
  with assms(1) have "name n \<notin> name ` set pre" "name n \<notin> name ` set post" by auto
  then have o: "\<forall>m\<in>set pre. name m \<noteq> name n" "\<forall>m\<in>set post. name m \<noteq> name n"
    by (metis imageI)+
  let ?st = "network_step g (tangent_closure g)"
  have nx: "nx_network g = foldl ?st (?st (foldl ?st [] pre) n) post"
    unfolding nx_network_def by (subst (3) g) simp
  show ?thesis
    unfolding nx
    by (simp add: foldl_step_other[OF o(2)] step_inout step_source foldl_step_other[OF o(1)])
qed

theorem network_in_out_capacity_witness:
  "distinct (map name ex_mm) \<and> ex_mm ! 3 \<in> set ex_mm \<and>
   map_of (nx_network ex_mm) (''mm_in'', ''mm_out'') = Some 16 \<and>
   map_of (nx_network ex_mm) (''source'', ''mm_in'') = Some \<infinity>"
proof -
  have d: "distinct (map name ex_mm)" by (simp add: ex_mm_def)
  have m: "ex_mm ! 3 \<in> set ex_mm" by (simp add: ex_mm_def)
  have tc: "name (ex_mm ! 3) \<notin> tangent_closure ex_mm" by code_simp
  have w: "weight (ex_mm ! 3) = 16" by code_simp
  have r: "target (ex_mm ! 3) \<notin> recomputable_ops" by code_simp
  have nm: "name (ex_mm ! 3) = ''mm''" by (simp add: ex_mm_def)
  from network_in_out_capacity[OF d m] tc w r nm d m show ?thesis by simp
qed

text \<open>
  C2 as stated fails: \<open>mm\<close> is not recomputable, yet the edge from \<open>mm_in\<close> to \<open>mm_out\<close>
  has the finite capacity 16 (twice the 8 elements of its result); and the view operator \<open>t\<close>
  is not classified as recomputable.
\<close>

theorem non_recomputable_capacity_counterexample:
  "target (ex_mm ! 3) = TFun ''mm'' \<and> TFun ''mm'' \<notin> recomputable_ops \<and>
   map_of (nx_network ex_mm) (''mm_in'', ''mm_out'') = Some 16 \<and>
   tensor_meta (ex_mm ! 3) = Some [2, 4] \<and>
   ''t'' \<in> set view_ops \<and> TFun ''t'' \<notin> recomputable_ops"
  by code_simp

lemma set_add_edge: "e \<in> set (add_edge G u v c) \<Longrightarrow> e = ((u, v), c) \<or> e \<in> set G"
  unfolding add_edge_def by (induction G) (auto split: if_splits)

lemma finite_edges_add_inf: "finite_edges_ok g G \<Longrightarrow> finite_edges_ok g (add_edge G u v \<infinity>)"
  unfolding finite_edges_ok_def using set_add_edge by fastforce

lemma finite_edges_add_inout:
  "finite_edges_ok g G \<Longrightarrow> n \<in> set g \<Longrightarrow>
   finite_edges_ok g (add_edge G (name n @ ''_in'') (name n @ ''_out'') c)"
  unfolding finite_edges_ok_def using set_add_edge by fastforce

lemma finite_edges_users:
  "finite_edges_ok g G \<Longrightarrow>
   finite_edges_ok g (foldl (\<lambda>G' user. add_edge G' a (f user) \<infinity>) G us)"
  by (induction us arbitrary: G) (simp_all add: finite_edges_add_inf)

lemma finite_edges_step:
  "finite_edges_ok g G \<Longrightarrow> n \<in> set g \<Longrightarrow> finite_edges_ok g (network_step g' tc G n)"
  by (simp add: network_step_def Let_def finite_edges_users finite_edges_add_inout
        finite_edges_add_inf)

lemma finite_edges_foldl:
  "finite_edges_ok g G \<Longrightarrow> set ns \<subseteq> set g \<Longrightarrow>
   finite_edges_ok g (foldl (network_step g' tc) G ns)"
  by (induction ns arbitrary: G) (simp_all add: finite_edges_step)

lemma finite_edges_network: "finite_edges_ok g (nx_network g)"
  unfolding nx_network_def by (rule finite_edges_foldl) (simp_all add: finite_edges_ok_def)

lemma sum_list_enat_infinite: "sum_list (xs :: enat list) = \<infinity> \<longleftrightarrow> \<infinity> \<in> set xs"
  by (induction xs) (auto simp: plus_eq_infty_iff_enat)

lemma sum_list_enat_finite: "sum_list (xs :: enat list) \<noteq> \<infinity> \<Longrightarrow> x \<in> set xs \<Longrightarrow> x \<noteq> \<infinity>"
  using sum_list_enat_infinite[of xs] by metis

lemma cut_nodes_in_out:
  "\<forall>e\<in>set es. \<exists>n\<in>set g. e = (name n @ ''_in'', name n @ ''_out'') \<Longrightarrow> set acc \<subseteq> name ` set g \<Longrightarrow>
   \<exists>names. cut_nodes es acc = Inr names \<and> set names \<subseteq> name ` set g"
proof (induction es arbitrary: acc)
  case Nil
  then show ?case by simp
next
  case (Cons e es)
  from Cons.prems(1) obtain n where n: "n \<in> set g" "e = (name n @ ''_in'', name n @ ''_out'')"
    by auto
  let ?acc = "if name n \<in> set acc then acc else acc @ [name n]"
  from n(1) Cons.prems(2) have "set ?acc \<subseteq> name ` set g" by auto
  with Cons.IH[of ?acc] Cons.prems(1) obtain names where
    "cut_nodes es ?acc = Inr names" "set names \<subseteq> name ` set g" by auto
  with n(2) show ?case by simp
qed

text \<open>
  C5. Whenever the partition returned for the network of a joint graph has a finite cut
  capacity (which is the case for every cut that \<open>nx.minimum_cut\<close> returns), no edge of the
  cut set touches the source or the sink, every such edge joins \<open>n_in\<close> to \<open>n_out\<close> for one
  node \<open>n\<close> of the graph, and the loop over the cut set ends without the assertion firing,
  with names of nodes of the graph.
\<close>

theorem min_cut_only_in_out_edges:
  assumes "cut_capacity (nx_network g) reachable non_reachable \<noteq> \<infinity>"
  shows "(\<forall>(u, v)\<in>set (cutset (nx_network g) reachable non_reachable).
            u \<noteq> ''source'' \<and> u \<noteq> ''sink'' \<and> v \<noteq> ''source'' \<and> v \<noteq> ''sink'' \<and>
            (\<exists>n\<in>set g. u = name n @ ''_in'' \<and> v = name n @ ''_out'')) \<and>
         (\<exists>names. cut_nodes (cutset (nx_network g) reachable non_reachable) [] = Inr names \<and>
                   set names \<subseteq> name ` set g)"
proof -
  let ?G = "nx_network g"
  have io: "\<exists>n\<in>set g. e = (name n @ ''_in'', name n @ ''_out'')"
    if e: "e \<in> set (cutset ?G reachable non_reachable)" for e
  proof -
    from e obtain c where c: "(e, c) \<in> set ?G" and x: "fst e \<in> reachable \<and> snd e \<in> non_reachable"
      by (auto simp: cutset_def)
    then have "c \<in> set (map snd (filter (\<lambda>((u, v), c). u \<in> reachable \<and> v \<in> non_reachable) ?G))"
      by (force simp: case_prod_beta)
    with assms have "c \<noteq> \<infinity>" unfolding cut_capacity_def by (rule sum_list_enat_finite)
    with c finite_edges_network[of g] show ?thesis unfolding finite_edges_ok_def by force
  qed
  then have "\<forall>(u, v)\<in>set (cutset ?G reachable non_reachable).
            u \<noteq> ''source'' \<and> u \<noteq> ''sink'' \<and> v \<noteq> ''source'' \<and> v \<noteq> ''sink'' \<and>
            (\<exists>n\<in>set g. u = name n @ ''_in'' \<and> v = name n @ ''_out'')"
    by (fastforce simp: suffix_neq)
  moreover from io have "\<exists>names. cut_nodes (cutset ?G reachable non_reachable) [] = Inr names \<and>
                   set names \<subseteq> name ` set g"
    by (intro cut_nodes_in_out) auto
  ultimately show ?thesis by blast
qed

theorem min_cut_only_in_out_edges_witness:
  "cut_capacity (nx_network ex_joint) ex_reachable ex_non_reachable = 6 \<and>
   cutset (nx_network ex_joint) ex_reachable ex_non_reachable = [(''primals_1_in'', ''primals_1_out'')] \<and>
   cut_nodes (cutset (nx_network ex_joint) ex_reachable ex_non_reachable) [] = Inr [''primals_1'']"
proof -
  have c: "cut_capacity (nx_network ex_joint) ex_reachable ex_non_reachable = 6" by code_simp
  then have "cut_capacity (nx_network ex_joint) ex_reachable ex_non_reachable \<noteq> \<infinity>"
    by (simp add: numeral_eq_enat)
  from min_cut_only_in_out_edges[OF this]
  obtain names where "cut_nodes (cutset (nx_network ex_joint) ex_reachable ex_non_reachable) [] = Inr names"
    by blast
  moreover have cs: "cutset (nx_network ex_joint) ex_reachable ex_non_reachable =
    [(''primals_1_in'', ''primals_1_out'')]" by code_simp
  ultimately show ?thesis using c by simp
qed

lemma remove_by_name_filter:
  "distinct (map name sv) \<Longrightarrow> remove_by_name nm sv = filter (\<lambda>s. name s \<noteq> nm) sv"
proof (induction sv)
  case Nil
  then show ?case by simp
next
  case (Cons s sv)
  show ?case
  proof (cases "name s = nm")
    case True
    with Cons.prems have "nm \<notin> name ` set sv" by auto
    then have "\<forall>x\<in>set sv. name x \<noteq> nm" by (metis imageI)
    then have "filter (\<lambda>s. name s \<noteq> nm) sv = sv" by (simp add: filter_id_conv)
    with True show ?thesis by simp
  next
    case False
    with Cons show ?thesis by simp
  qed
qed

lemma distinct_names_filter: "distinct (map name sv) \<Longrightarrow> distinct (map name (filter P sv))"
  by (simp add: distinct_map_filter)

lemma drop_loop_filter:
  "distinct (map name sv) \<Longrightarrow>
   foldl (\<lambda>sv node. if Q node then remove_by_name (name node) sv else sv) sv ns =
   filter (\<lambda>s. \<not> (\<exists>p\<in>set ns. Q p \<and> name p = name s)) sv"
proof (induction ns arbitrary: sv)
  case Nil
  then show ?case by simp
next
  case (Cons n ns)
  show ?case
  proof (cases "Q n")
    case True
    let ?sv = "filter (\<lambda>s. name s \<noteq> name n) sv"
    from Cons.prems have d: "distinct (map name ?sv)" by (rule distinct_names_filter)
    from True Cons.prems have
      "foldl (\<lambda>sv node. if Q node then remove_by_name (name node) sv else sv) sv (n # ns) =
       foldl (\<lambda>sv node. if Q node then remove_by_name (name node) sv else sv) ?sv ns"
      by (simp add: remove_by_name_filter)
    also have "\<dots> = filter (\<lambda>s. \<not> (\<exists>p\<in>set ns. Q p \<and> name p = name s)) ?sv"
      by (rule Cons.IH[OF d])
    also have "\<dots> = filter (\<lambda>s. \<not> (\<exists>p\<in>set (n # ns). Q p \<and> name p = name s)) sv"
      using True by (auto intro: filter_cong)
    finally show ?thesis .
  next
    case False
    with Cons.IH[OF Cons.prems] show ?thesis by (auto intro: filter_cong)
  qed
qed

lemma drop_unused_refine:
  "distinct (map name saved_values) \<Longrightarrow> drop_unused bwd_graph saved_values = refine_saved bwd_graph saved_values"
proof -
  assume d: "distinct (map name saved_values)"
  let ?Q = "\<lambda>node. op node = Placeholder \<and> users bwd_graph (name node) = []"
  have "drop_unused bwd_graph saved_values =
        filter (\<lambda>s. \<not> (\<exists>p\<in>set bwd_graph. ?Q p \<and> name p = name s)) saved_values"
    unfolding drop_unused_def by (rule drop_loop_filter[OF d])
  also have "\<dots> = refine_saved bwd_graph saved_values"
    unfolding refine_saved_def by (rule filter_cong[OF refl]) blast
  finally show ?thesis .
qed

lemma placeholder_unused:
  "nm \<notin> name ` set g \<Longrightarrow> placeholder g nm = (g @ [new_placeholder nm], nm)"
  by (simp add: placeholder_def create_node_def create_name_unused new_placeholder_def)

lemma placeholder_appends: "\<exists>p. fst (placeholder g nm) = g @ [p]"
  by (simp add: placeholder_def create_node_def Let_def)

lemma input_placeholders_appends:
  "\<exists>ext. fst (foldl (\<lambda>(g, new_inputs) node.
              let (g', new_node) = placeholder g (name node) in (g', (name node, new_node) # new_inputs))
            (g, ni) ins) = g @ ext"
proof (induction ins arbitrary: g ni)
  case Nil
  then show ?case by simp
next
  case (Cons n ins)
  obtain p where p: "fst (placeholder g (name n)) = g @ [p]" using placeholder_appends by blast
  obtain g' nm where gn: "placeholder g (name n) = (g', nm)" by (cases "placeholder g (name n)")
  with p have g': "g' = g @ [p]" by simp
  from Cons.IH[of g' "(name n, nm) # ni"] obtain ext where
    "fst (foldl (\<lambda>(g, new_inputs) node.
              let (g', new_node) = placeholder g (name node) in (g', (name node, new_node) # new_inputs))
            (g', (name n, nm) # ni) ins) = g' @ ext" by blast
  with gn g' show ?case by (auto simp: Let_def)
qed

lemma input_placeholders_fresh:
  "distinct (map name ins) \<Longrightarrow> name ` set ins \<inter> name ` set g = {} \<Longrightarrow>
   fst (foldl (\<lambda>(g, new_inputs) node.
              let (g', new_node) = placeholder g (name node) in (g', (name node, new_node) # new_inputs))
            (g, ni) ins) = g @ map (new_placeholder \<circ> name) ins"
proof (induction ins arbitrary: g ni)
  case Nil
  then show ?case by simp
next
  case (Cons n ins)
  from Cons.prems(2) have "name n \<notin> name ` set g" by auto
  then have ph: "placeholder g (name n) = (g @ [new_placeholder (name n)], name n)"
    by (rule placeholder_unused)
  from Cons.prems have d: "distinct (map name ins)"
    and dj: "name ` set ins \<inter> name ` set (g @ [new_placeholder (name n)]) = {}"
    by (auto simp: new_placeholder_def)
  from Cons.IH[OF d dj] ph show ?case by (simp add: Let_def)
qed

lemma input_placeholders_prefix:
  assumes "distinct (map name saved)"
  shows "\<exists>ext. fst (input_placeholders (saved @ rest)) = map (new_placeholder \<circ> name) saved @ ext"
proof -
  let ?f = "\<lambda>(g, new_inputs) node.
              let (g', new_node) = placeholder g (name node) in (g', (name node, new_node) # new_inputs)"
  obtain g1 ni1 where s1: "foldl ?f ([], []) saved = (g1, ni1)" by (cases "foldl ?f ([], []) saved")
  from input_placeholders_fresh[OF assms, of "[]" "[]"] s1
  have g1: "g1 = map (new_placeholder \<circ> name) saved" by simp
  from input_placeholders_appends[of g1 ni1 rest] obtain ext where
    "fst (foldl ?f (g1, ni1) rest) = g1 @ ext" by blast
  with s1 g1 show ?thesis by (auto simp: input_placeholders_def)
qed

lemma create_node_appends: "\<exists>p. fst (create_node g k tg as kw c m) = g @ [p]"
  by (simp add: create_node_def Let_def)

lemma extract_step_appends:
  "extract_step inputs new_inputs (g, env) node = Inr (g', env') \<Longrightarrow> \<exists>ext. g' = g @ ext"
  unfolding extract_step_def node_copy_def
  using create_node_appends
  by (auto split: if_splits option.splits sum.splits prod.splits simp: Let_def)
     (metis fst_conv)+

lemma fold_extract_appends:
  "fold_err (extract_step inputs new_inputs) (g, env) ns = Inr (g', env') \<Longrightarrow> \<exists>ext. g' = g @ ext"
proof (induction ns arbitrary: g env)
  case Nil
  then show ?case by simp
next
  case (Cons n ns)
  from Cons.prems obtain g1 env1 where
    st: "extract_step inputs new_inputs (g, env) n = Inr (g1, env1)"
    and rest: "fold_err (extract_step inputs new_inputs) (g1, env1) ns = Inr (g', env')"
    by (auto split: sum.splits)
  from extract_step_appends[OF st] Cons.IH[OF rest] show ?case by auto
qed

lemma eliminate_dead_code_placeholders:
  "\<forall>p\<in>set ps. op p = Placeholder \<Longrightarrow> eliminate_dead_code (ps @ rest) = ps @ eliminate_dead_code rest"
  by (induction ps) (simp_all add: is_impure_def Let_def)

lemma extract_saved_placeholders:
  assumes "distinct (map name saved)"
    and "extract_graph_with_inputs_outputs joint_graph (saved @ rest) outputs = Inr new_graph"
  shows "take (length saved) new_graph = map (new_placeholder \<circ> name) saved"
proof -
  let ?ps = "map (new_placeholder \<circ> name) saved"
  obtain g0 ni where ip: "input_placeholders (saved @ rest) = (g0, ni)"
    by (cases "input_placeholders (saved @ rest)")
  with input_placeholders_prefix[OF assms(1), of rest] obtain ext0 where g0: "g0 = ?ps @ ext0"
    by auto
  from assms(2) ip obtain g1 env outs where
    f: "fold_err (extract_step (saved @ rest) ni) (g0, []) joint_graph = Inr (g1, env)"
    and ng: "new_graph = eliminate_dead_code (graph_output g1 (ASeq outs))"
    by (auto simp: extract_graph_with_inputs_outputs_def split: sum.splits)
  from fold_extract_appends[OF f] g0 obtain ext1 where g1: "g1 = ?ps @ ext1" by auto
  obtain p where "graph_output g1 (ASeq outs) = g1 @ [p]"
    using create_node_appends by (metis graph_output_def)
  with g1 ng have "new_graph = eliminate_dead_code (?ps @ (ext1 @ [p]))" by simp
  also have "\<dots> = ?ps @ eliminate_dead_code (ext1 @ [p])"
    by (rule eliminate_dead_code_placeholders) (simp add: new_placeholder_def)
  finally show ?thesis by simp
qed

text \<open>
  C6. For saved values of distinct names, \<open>_extract_fwd_bwd_modules\<close> does what
  \<open>refine_and_rebuild\<close> says: it builds the initial forward and backward subgraphs, removes
  from the saved set every saved value whose placeholder in the initial backward subgraph has
  no user, and rebuilds both subgraphs exactly once with the reduced set; the reduced set is
  not checked again. The placeholders of the saved values are the first nodes of the initial
  backward subgraph, under the names of the saved values.
\<close>

theorem extract_fwd_bwd_modules_single_refinement:
  assumes "distinct (map name saved_values)"
  shows "extract_fwd_bwd_modules joint_module saved_values =
           refine_and_rebuild joint_module saved_values \<and>
         (\<forall>bwd_graph0.
            extract_graph_with_inputs_outputs (nodes joint_module)
              (saved_values @ filter is_tangent (nodes joint_module))
              (snd (extract_fwd_bwd_outputs joint_module)) = Inr bwd_graph0 \<longrightarrow>
            take (length saved_values) bwd_graph0 = map (new_placeholder \<circ> name) saved_values)"
proof
  show "extract_fwd_bwd_modules joint_module saved_values =
           refine_and_rebuild joint_module saved_values"
  proof -
    obtain fo bo where ob: "extract_fwd_bwd_outputs joint_module = (fo, bo)"
      by (cases "extract_fwd_bwd_outputs joint_module")
    let ?g = "nodes joint_module"
    let ?A = "extract_graph_with_inputs_outputs ?g (filter is_primal ?g)
                (fo @ map (ANode \<circ> name) saved_values)"
    let ?B = "extract_graph_with_inputs_outputs ?g (saved_values @ filter is_tangent ?g) bo"
    show ?thesis
    proof (cases ?A)
      case Inl
      then show ?thesis
        by (simp add: extract_fwd_bwd_modules_def refine_and_rebuild_def rebuild_def ob)
    next
      case A: (Inr fwd0)
      show ?thesis
      proof (cases ?B)
        case Inl
        with A show ?thesis
          by (simp add: extract_fwd_bwd_modules_def refine_and_rebuild_def rebuild_def ob)
      next
        case (Inr bwd0)
        with A show ?thesis
          by (simp add: extract_fwd_bwd_modules_def refine_and_rebuild_def rebuild_def ob
                drop_unused_refine[OF assms] Let_def cong: sum.case_cong)
      qed
    qed
  qed
next
  show "\<forall>bwd_graph0.
            extract_graph_with_inputs_outputs (nodes joint_module)
              (saved_values @ filter is_tangent (nodes joint_module))
              (snd (extract_fwd_bwd_outputs joint_module)) = Inr bwd_graph0 \<longrightarrow>
            take (length saved_values) bwd_graph0 = map (new_placeholder \<circ> name) saved_values"
    using extract_saved_placeholders[OF assms] by blast
qed

lemma ex_saved_initial:
  "(case rebuild ex_mm_module ex_saved of Inr (f, b) \<Rightarrow> map name (refine_saved b ex_saved) | Inl e \<Rightarrow> []) =
     [''primals_1'', ''primals_2'']"
  by code_simp

theorem extract_fwd_bwd_modules_single_refinement_witness:
  "distinct (map name ex_saved) \<and>
   extract_fwd_bwd_modules ex_mm_module ex_saved = refine_and_rebuild ex_mm_module ex_saved \<and>
   (case rebuild ex_mm_module ex_saved of
      Inr (f, b) \<Rightarrow> map name (refine_saved b ex_saved) | Inl e \<Rightarrow> []) =
     [''primals_1'', ''primals_2''] \<and>
   (case refine_and_rebuild ex_mm_module ex_saved of
      Inr (f, b) \<Rightarrow> map name (filter (\<lambda>n. op n = Placeholder) b) | Inl e \<Rightarrow> []) =
     [''primals_1'', ''primals_2'', ''tangents_1'']"
proof -
  have d: "distinct (map name ex_saved)" by (simp add: ex_saved_def ex_mm_def)
  have "(case refine_and_rebuild ex_mm_module ex_saved of
      Inr (f, b) \<Rightarrow> map name (filter (\<lambda>n. op n = Placeholder) b) | Inl e \<Rightarrow> []) =
     [''primals_1'', ''primals_2'', ''tangents_1'']" by code_simp
  with extract_fwd_bwd_modules_single_refinement[OF d, of ex_mm_module] d ex_saved_initial
  show ?thesis by simp
qed

lemma map_err_fails:
  "x \<in> set xs \<Longrightarrow> f x = Inl e \<Longrightarrow> \<exists>e'. map_err f xs = Inl e'"
  by (induction xs) (auto split: sum.splits)

lemma extract_none_output:
  "ANone \<in> set outputs \<Longrightarrow> \<exists>e. extract_graph_with_inputs_outputs g ins outputs = Inl e"
proof -
  assume a: "ANone \<in> set outputs"
  have "\<exists>e'. map_err (output_proxy_node env) outputs = Inl e'" for env
    by (rule map_err_fails[OF a]) simp
  then show ?thesis
    unfolding extract_graph_with_inputs_outputs_def
    by (auto split: sum.splits prod.splits) (metis Inl_Inr_False)
qed

lemma ex_unused_outputs:
  "extract_fwd_bwd_outputs ex_unused = ([ANode ''mul''], [ANode ''mul_1'', ANone])"
  by code_simp

lemma extract_fwd_bwd_modules_unused: "\<exists>e. extract_fwd_bwd_modules ex_unused saved_values = Inl e"
proof -
  have "\<exists>e. extract_graph_with_inputs_outputs g ins [ANode ''mul_1'', ANone] = Inl e" for g ins
    by (rule extract_none_output) simp
  then show ?thesis
    unfolding extract_fwd_bwd_modules_def ex_unused_outputs
    by (simp add: Let_def split: sum.splits) (metis Inl_Inr_False)
qed

text \<open>
  C1 fails on the code. On the joint graph \<open>ex_unused\<close>, whose gradient list holds \<open>None\<close>
  for the unused input, \<open>default_partition\<close> raises \<open>KeyError\<close> (\<open>value_remap[None]\<close>,
  line 82), and the recompute-aware partitioner raises whatever cut \<open>nx.minimum_cut\<close>
  returns (\<open>env[None]\<close>, line 159): neither produces a forward and a backward graph.
\<close>

theorem partitioners_raise_on_unused_gradient:
  "default_partition (\<lambda>xs. xs) ex_unused = Inl KeyError \<and>
   (\<forall>minimum_cut set_iter.
      \<exists>e. partition_with_recompute_fwd_in_bwd True minimum_cut set_iter ex_unused = Inl e)"
proof
  show "default_partition (\<lambda>xs. xs) ex_unused = Inl KeyError" by code_simp
next
  show "\<forall>minimum_cut set_iter.
      \<exists>e. partition_with_recompute_fwd_in_bwd True minimum_cut set_iter ex_unused = Inl e"
    unfolding partition_with_recompute_fwd_in_bwd_def
    using extract_fwd_bwd_modules_unused
    by (auto simp: Let_def split: sum.splits prod.splits)
qed

lemma ex_cl_first_call: "fst (returned_function ex_cl ex_world [3]) = Inr [9]"
  by (simp add: returned_function_def forward_def ex_cl_def ex_world_def compiled_function_def
       init_world_def cache_key_def cache_at_def cache_insert_def log_call_def upd_unit_def Let_def)
     code_simp

text \<open>
  What \<open>clear_compile_cache\<close> and a new wrapping do: after the clear the global cache
  reference is \<open>None\<close> and \<open>num_of_recompilations()\<close> returns 0; the next call of
  \<open>compiled_function\<close>, that is the next wrapping of a function, constructs a fresh cache
  object, at an address different from the cleared one, which is empty.
\<close>

lemma clear_then_wrap_fresh_cache:
  assumes "wf_world w"
  shows "num_of_recompilations (clear_compile_cache w) = 0 \<and>
         compile_cache (clear_compile_cache w) = None \<and>
         compile_cache (compiled_function (clear_compile_cache w)) = Some (next_addr w) \<and>
         compile_cache w \<noteq> Some (next_addr w) \<and>
         cache_heap (compiled_function (clear_compile_cache w)) (next_addr w) = [] \<and>
         num_of_recompilations (compiled_function (clear_compile_cache w)) = 0"
  using assms
  by (auto simp: wf_world_def num_of_recompilations_def clear_compile_cache_def
        compiled_function_def cache_size_def cache_clear_def split: option.splits)

text \<open>
  C10 fails on the code. A function is wrapped and called once, so that the cache holds one
  entry; \<open>clear_compile_cache()\<close> is called, after which \<open>num_of_recompilations()\<close> returns 0
  and the global reference is \<open>None\<close>; the wrapped callable is invoked again. The invocation
  constructs no cache: \<open>compile_cache.at\<close> is applied to \<open>None\<close> (line 459), the call raises
  \<open>AttributeError\<close>, and the global reference is still \<open>None\<close> afterwards. The other accesses
  to the global (lines 444, 494 and 501) test it for \<open>None\<close> first.
\<close>

theorem wrapped_call_after_clear_raises:
  "fst (returned_function ex_cl ex_world [3]) = Inr [9] \<and>
   num_of_recompilations (snd (returned_function ex_cl ex_world [3])) = 1 \<and>
   num_of_recompilations (clear_compile_cache (snd (returned_function ex_cl ex_world [3]))) = 0 \<and>
   compile_cache (clear_compile_cache (snd (returned_function ex_cl ex_world [3]))) = None \<and>
   fst (returned_function ex_cl
          (clear_compile_cache (snd (returned_function ex_cl ex_world [3]))) [3]) =
     Inl AttributeError \<and>
   compile_cache (snd (returned_function ex_cl
          (clear_compile_cache (snd (returned_function ex_cl ex_world [3]))) [3])) = None"
  by code_simp

lemma length_update_new: "map_of c k = None \<Longrightarrow> length (AList.update k v c) = Suc (length c)"
  by (induction c) (auto split: if_splits)

lemma forward_keeps_cache:
  "cache_heap (snd (forward cl u w xs)) = cache_heap w \<and>
   compile_cache (snd (forward cl u w xs)) = compile_cache w"
  by (simp add: forward_def log_call_def upd_unit_def Let_def
        split: option.splits sum.splits prod.splits)

lemma returned_function_miss:
  assumes "compile_cache w = Some a" and "cache_at (cache_heap w a) (cache_key cl xs) = None"
  shows "returned_function cl w xs =
           (case forward cl (next_unit w) (miss_world cl w a xs) xs of
              (Inl e, w2) \<Rightarrow> (Inl e, w2)
            | (Inr (outs, saved), w2) \<Rightarrow> (Inr outs, w2))"
  using assms by (simp add: returned_function_def miss_world_def Let_def)

lemma returned_function_hit:
  assumes "compile_cache w = Some a" and "cache_at (cache_heap w a) (cache_key cl xs) = Some u"
  shows "returned_function cl w xs =
           (case forward cl u w xs of
              (Inl e, w2) \<Rightarrow> (Inl e, w2)
            | (Inr (outs, saved), w2) \<Rightarrow> (Inr outs, w2))"
  using assms by (simp add: returned_function_def Let_def)

lemma snd_returned_function_miss:
  assumes "compile_cache w = Some a" and "cache_at (cache_heap w a) (cache_key cl xs) = None"
  shows "snd (returned_function cl w xs) = snd (forward cl (next_unit w) (miss_world cl w a xs) xs)"
  unfolding returned_function_miss[OF assms]
  by (simp split: prod.splits sum.splits)

lemma miss_inserts_entry:
  assumes cc: "compile_cache w = Some a" and miss: "cache_at (cache_heap w a) (cache_key cl xs) = None"
  shows "cache_at (cache_heap (snd (returned_function cl w xs)) a) (cache_key cl xs) = Some (next_unit w)"
    and "num_of_recompilations (snd (returned_function cl w xs)) = Suc (num_of_recompilations w)"
proof -
  let ?w1 = "miss_world cl w a xs"
  have h: "cache_heap (snd (returned_function cl w xs)) = cache_heap ?w1"
    and c: "compile_cache (snd (returned_function cl w xs)) = compile_cache ?w1"
    using forward_keeps_cache[of cl "next_unit w" ?w1 xs]
    by (simp_all add: snd_returned_function_miss[OF cc miss])
  show "cache_at (cache_heap (snd (returned_function cl w xs)) a) (cache_key cl xs) = Some (next_unit w)"
    unfolding h by (simp add: miss_world_def cache_at_def cache_insert_def update_conv')
  show "num_of_recompilations (snd (returned_function cl w xs)) = Suc (num_of_recompilations w)"
    using miss cc unfolding num_of_recompilations_def h c
    by (simp add: miss_world_def cache_at_def cache_insert_def cache_size_def length_update_new)
qed

lemma forward_fw_compiler_fails:
  assumes "compiled_fw (units w u) = None"
    and "flat_fn cl xs = Inr out"
    and "make_fx cl (decompose cl) xs out = Inr fx_g"
    and "partition_fn cl fx_g = Inr (fw_module, bw_module)"
    and "fw_compiler cl fw_module xs = Inl e"
  shows "fst (forward cl u w xs) = Inl e"
    and "compiled_fw (units (snd (forward cl u w xs)) u) = None"
    and "calls (snd (forward cl u w xs)) =
           calls w @ [CallFlatFn, CallMakeFx, CallPartitionFn, CallFwCompiler]"
  using assms by (simp_all add: forward_def log_call_def upd_unit_def Let_def)

lemma forward_partition_fails:
  assumes "compiled_fw (units w u) = None"
    and "flat_fn cl xs = Inr out"
    and "make_fx cl (decompose cl) xs out = Inr fx_g"
    and "partition_fn cl fx_g = Inl e"
  shows "fst (forward cl u w xs) = Inl e"
    and "calls (snd (forward cl u w xs)) = calls w @ [CallFlatFn, CallMakeFx, CallPartitionFn]"
  using assms by (simp_all add: forward_def log_call_def upd_unit_def Let_def)

lemma fst_returned_function_miss:
  assumes "compile_cache w = Some a" and "cache_at (cache_heap w a) (cache_key cl xs) = None"
    and "fst (forward cl (next_unit w) (miss_world cl w a xs) xs) = Inl e"
  shows "fst (returned_function cl w xs) = Inl e"
  using assms(3) unfolding returned_function_miss[OF assms(1,2)]
  by (cases "forward cl (next_unit w) (miss_world cl w a xs) xs") (auto split: sum.splits)

lemma fst_returned_function_hit:
  assumes "compile_cache w = Some a" and "cache_at (cache_heap w a) (cache_key cl xs) = Some u"
    and "fst (forward cl u w xs) = Inl e"
  shows "fst (returned_function cl w xs) = Inl e"
  using assms(3) unfolding returned_function_hit[OF assms(1,2)]
  by (cases "forward cl u w xs") (auto split: sum.splits)

lemma snd_returned_function_hit:
  assumes "compile_cache w = Some a" and "cache_at (cache_heap w a) (cache_key cl xs) = Some u"
  shows "snd (returned_function cl w xs) = snd (forward cl u w xs)"
  unfolding returned_function_hit[OF assms]
  by (simp split: prod.splits sum.splits)

lemma forward_bw_compiler_fails:
  assumes "compiled_fw (units w u) = None"
    and "flat_fn cl xs = Inr out"
    and "make_fx cl (decompose cl) xs out = Inr fx_g"
    and "partition_fn cl fx_g = Inr (fw_module, bw_module)"
    and "fw_compiler cl fw_module xs = Inr cfw"
    and "cfw xs = Inr r"
    and "bw_compiler cl bw_module
           (drop (case out of PyTuple ys \<Rightarrow> length ys | PyList ys \<Rightarrow> length ys | PyObj y \<Rightarrow> 1)
              (normalize_as_list r) @
            take (case out of PyTuple ys \<Rightarrow> length ys | PyList ys \<Rightarrow> length ys | PyObj y \<Rightarrow> 1)
              (normalize_as_list r)) = Inl e"
  shows "fst (forward cl u w xs) = Inl e"
  using assms by (simp add: forward_def log_call_def upd_unit_def Let_def)

text \<open>
  C8, as amended. On a cache miss the entry for the key is inserted before the unit is run
  (line 479), so it is in the cache after the call whatever the call does. When the forward
  compiler raises, or when the forward compiler and the compiled forward return and the
  backward compiler raises, the failure reaches the caller and the entry for the key is in
  the cache. After a failure of the forward compiler the cached unit is still uncompiled, and
  a retried call with the same key, a cache hit, runs the function, traces, partitions and
  calls the forward compiler again.
\<close>

theorem compiler_failure_keeps_cache_entry:
  assumes cc: "compile_cache w = Some a"
    and miss: "cache_at (cache_heap w a) (cache_key cl xs) = None"
  shows "cache_at (cache_heap (snd (returned_function cl w xs)) a) (cache_key cl xs) =
           Some (next_unit w) \<and>
         num_of_recompilations (snd (returned_function cl w xs)) = Suc (num_of_recompilations w) \<and>
         (\<forall>out fx_g fw_module bw_module e.
            flat_fn cl xs = Inr out \<and> make_fx cl (decompose cl) xs out = Inr fx_g \<and>
            partition_fn cl fx_g = Inr (fw_module, bw_module) \<and>
            fw_compiler cl fw_module xs = Inl e \<longrightarrow>
            fst (returned_function cl w xs) = Inl e \<and>
            cache_at (cache_heap (snd (returned_function cl w xs)) a) (cache_key cl xs) =
              Some (next_unit w) \<and>
            compiled_fw (units (snd (returned_function cl w xs)) (next_unit w)) = None \<and>
            fst (returned_function cl (snd (returned_function cl w xs)) xs) = Inl e \<and>
            calls (snd (returned_function cl (snd (returned_function cl w xs)) xs)) =
              calls (snd (returned_function cl w xs)) @
                [CallFlatFn, CallMakeFx, CallPartitionFn, CallFwCompiler]) \<and>
         (\<forall>out fx_g fw_module bw_module cfw r e.
            flat_fn cl xs = Inr out \<and> make_fx cl (decompose cl) xs out = Inr fx_g \<and>
            partition_fn cl fx_g = Inr (fw_module, bw_module) \<and>
            fw_compiler cl fw_module xs = Inr cfw \<and> cfw xs = Inr r \<and>
            bw_compiler cl bw_module
              (drop (case out of PyTuple ys \<Rightarrow> length ys | PyList ys \<Rightarrow> length ys | PyObj y \<Rightarrow> 1)
                 (normalize_as_list r) @
               take (case out of PyTuple ys \<Rightarrow> length ys | PyList ys \<Rightarrow> length ys | PyObj y \<Rightarrow> 1)
                 (normalize_as_list r)) = Inl e \<longrightarrow>
            fst (returned_function cl w xs) = Inl e \<and>
            cache_at (cache_heap (snd (returned_function cl w xs)) a) (cache_key cl xs) =
              Some (next_unit w))"
proof (intro conjI)
  show ins: "cache_at (cache_heap (snd (returned_function cl w xs)) a) (cache_key cl xs) =
           Some (next_unit w)"
    by (rule miss_inserts_entry(1)[OF cc miss])
  show "num_of_recompilations (snd (returned_function cl w xs)) = Suc (num_of_recompilations w)"
    by (rule miss_inserts_entry(2)[OF cc miss])
  let ?u = "next_unit w"
  let ?w1 = "miss_world cl w a xs"
  let ?w' = "snd (returned_function cl w xs)"
  have u1: "compiled_fw (units ?w1 ?u) = None" by (simp add: miss_world_def)
  show "\<forall>out fx_g fw_module bw_module e.
            flat_fn cl xs = Inr out \<and> make_fx cl (decompose cl) xs out = Inr fx_g \<and>
            partition_fn cl fx_g = Inr (fw_module, bw_module) \<and>
            fw_compiler cl fw_module xs = Inl e \<longrightarrow>
            fst (returned_function cl w xs) = Inl e \<and>
            cache_at (cache_heap ?w' a) (cache_key cl xs) = Some (next_unit w) \<and>
            compiled_fw (units ?w' (next_unit w)) = None \<and>
            fst (returned_function cl ?w' xs) = Inl e \<and>
            calls (snd (returned_function cl ?w' xs)) =
              calls ?w' @ [CallFlatFn, CallMakeFx, CallPartitionFn, CallFwCompiler]"
  proof (intro allI impI)
    fix out fx_g fw_module bw_module e
    assume h: "flat_fn cl xs = Inr out \<and> make_fx cl (decompose cl) xs out = Inr fx_g \<and>
            partition_fn cl fx_g = Inr (fw_module, bw_module) \<and>
            fw_compiler cl fw_module xs = Inl e"
    note f1 = forward_fw_compiler_fails[OF u1, of cl xs out fx_g fw_module bw_module e]
    have w': "?w' = snd (forward cl ?u ?w1 xs)" by (rule snd_returned_function_miss[OF cc miss])
    have r1: "fst (returned_function cl w xs) = Inl e"
      using h by (intro fst_returned_function_miss[OF cc miss] f1(1)) simp_all
    have u2: "compiled_fw (units ?w' ?u) = None"
      unfolding w' using h by (intro f1(2)) simp_all
    have cc': "compile_cache ?w' = Some a"
      unfolding w' using forward_keeps_cache[of cl ?u ?w1 xs] cc by (simp add: miss_world_def)
    note f2 = forward_fw_compiler_fails[OF u2, of cl xs out fx_g fw_module bw_module e]
    have r2: "fst (returned_function cl ?w' xs) = Inl e"
      using h by (intro fst_returned_function_hit[OF cc' ins] f2(1)) simp_all
    have c2: "calls (snd (returned_function cl ?w' xs)) =
          calls ?w' @ [CallFlatFn, CallMakeFx, CallPartitionFn, CallFwCompiler]"
      unfolding snd_returned_function_hit[OF cc' ins] using h by (intro f2(3)) simp_all
    from r1 ins u2 r2 c2
    show "fst (returned_function cl w xs) = Inl e \<and>
            cache_at (cache_heap ?w' a) (cache_key cl xs) = Some (next_unit w) \<and>
            compiled_fw (units ?w' (next_unit w)) = None \<and>
            fst (returned_function cl ?w' xs) = Inl e \<and>
            calls (snd (returned_function cl ?w' xs)) =
              calls ?w' @ [CallFlatFn, CallMakeFx, CallPartitionFn, CallFwCompiler]"
      by simp
  qed
  show "\<forall>out fx_g fw_module bw_module cfw r e.
            flat_fn cl xs = Inr out \<and> make_fx cl (decompose cl) xs out = Inr fx_g \<and>
            partition_fn cl fx_g = Inr (fw_module, bw_module) \<and>
            fw_compiler cl fw_module xs = Inr cfw \<and> cfw xs = Inr r \<and>
            bw_compiler cl bw_module
              (drop (case out of PyTuple ys \<Rightarrow> length ys | PyList ys \<Rightarrow> length ys | PyObj y \<Rightarrow> 1)
                 (normalize_as_list r) @
               take (case out of PyTuple ys \<Rightarrow> length ys | PyList ys \<Rightarrow> length ys | PyObj y \<Rightarrow> 1)
                 (normalize_as_list r)) = Inl e \<longrightarrow>
            fst (returned_function cl w xs) = Inl e \<and>
            cache_at (cache_heap ?w' a) (cache_key cl xs) = Some (next_unit w)"
  proof (intro allI impI)
    fix out fx_g fw_module bw_module cfw r e
    assume h: "flat_fn cl xs = Inr out \<and> make_fx cl (decompose cl) xs out = Inr fx_g \<and>
            partition_fn cl fx_g = Inr (fw_module, bw_module) \<and>
            fw_compiler cl fw_module xs = Inr cfw \<and> cfw xs = Inr r \<and>
            bw_compiler cl bw_module
              (drop (case out of PyTuple ys \<Rightarrow> length ys | PyList ys \<Rightarrow> length ys | PyObj y \<Rightarrow> 1)
                 (normalize_as_list r) @
               take (case out of PyTuple ys \<Rightarrow> length ys | PyList ys \<Rightarrow> length ys | PyObj y \<Rightarrow> 1)
                 (normalize_as_list r)) = Inl e"
    have "fst (forward cl ?u ?w1 xs) = Inl e"
      using h by (intro forward_bw_compiler_fails[OF u1, of cl xs out fx_g fw_module bw_module cfw r e])
                 simp_all
    then have "fst (returned_function cl w xs) = Inl e"
      by (rule fst_returned_function_miss[OF cc miss])
    with ins show "fst (returned_function cl w xs) = Inl e \<and>
            cache_at (cache_heap ?w' a) (cache_key cl xs) = Some (next_unit w)"
      by simp
  qed
qed

lemma ex_world_facts:
  "compile_cache ex_world = Some 0" "cache_heap ex_world 0 = []" "next_unit ex_world = 0"
  "calls ex_world = []" "num_of_recompilations ex_world = 0"
  by (simp_all add: ex_world_def compiled_function_def init_world_def num_of_recompilations_def
        cache_size_def)

lemma ex_default_partition: "\<exists>fw bw. default_partition (\<lambda>xs. xs) ex_module = Inr (fw, bw)"
proof -
  have "(case default_partition (\<lambda>xs. xs) ex_module of Inr p \<Rightarrow> True | Inl e \<Rightarrow> False)"
    by code_simp
  then show ?thesis by (cases "default_partition (\<lambda>xs. xs) ex_module") auto
qed

theorem compiler_failure_keeps_cache_entry_witness:
  "compile_cache ex_world = Some 0 \<and>
   cache_at (cache_heap ex_world 0) (cache_key ex_cl_fw_fails [3]) = None \<and>
   fst (returned_function ex_cl_fw_fails ex_world [3]) = Inl (External ''fw_compiler'') \<and>
   cache_at (cache_heap (snd (returned_function ex_cl_fw_fails ex_world [3])) 0)
     (cache_key ex_cl_fw_fails [3]) = Some 0 \<and>
   num_of_recompilations (snd (returned_function ex_cl_fw_fails ex_world [3])) = 1 \<and>
   calls (snd (returned_function ex_cl_fw_fails
            (snd (returned_function ex_cl_fw_fails ex_world [3])) [3])) =
     calls (snd (returned_function ex_cl_fw_fails ex_world [3])) @
       [CallFlatFn, CallMakeFx, CallPartitionFn, CallFwCompiler] \<and>
   cache_at (cache_heap ex_world 0) (cache_key ex_cl_bw_fails [3]) = None \<and>
   fst (returned_function ex_cl_bw_fails ex_world [3]) = Inl (External ''bw_compiler'') \<and>
   cache_at (cache_heap (snd (returned_function ex_cl_bw_fails ex_world [3])) 0)
     (cache_key ex_cl_bw_fails [3]) = Some 0"
proof -
  have miss: "cache_at (cache_heap ex_world 0) (cache_key ex_cl_fw_fails [3]) = None"
    by (simp add: ex_world_facts cache_at_def)
  have miss': "cache_at (cache_heap ex_world 0) (cache_key ex_cl_bw_fails [3]) = None"
    by (simp add: ex_world_facts cache_at_def)
  obtain fw bw where dp: "default_partition (\<lambda>xs. xs) ex_module = Inr (fw, bw)"
    using ex_default_partition by blast
  have h: "flat_fn ex_cl_fw_fails [3] = Inr (PyList [9]) \<and>
           make_fx ex_cl_fw_fails (decompose ex_cl_fw_fails) [3] (PyList [9]) = Inr ex_module \<and>
           partition_fn ex_cl_fw_fails ex_module = Inr (fw, bw) \<and>
           fw_compiler ex_cl_fw_fails fw [3] = Inl (External ''fw_compiler'')"
    using dp by (simp add: ex_cl_fw_fails_def ex_cl_def)
  let ?cfw = "\<lambda>ys :: int list. (Inr (PyList (map (\<lambda>x. x * x) ys @ map (\<lambda>x. x * x) ys @ ys))
                 :: error + int pyval)"
  have h': "flat_fn ex_cl_bw_fails [3] = Inr (PyList [9]) \<and>
           make_fx ex_cl_bw_fails (decompose ex_cl_bw_fails) [3] (PyList [9]) = Inr ex_module \<and>
           partition_fn ex_cl_bw_fails ex_module = Inr (fw, bw) \<and>
           fw_compiler ex_cl_bw_fails fw [3] = Inr ?cfw \<and> ?cfw [3] = Inr (PyList [9, 9, 3]) \<and>
           bw_compiler ex_cl_bw_fails bw
             (drop (case PyList [9 :: int] of PyTuple ys \<Rightarrow> length ys | PyList ys \<Rightarrow> length ys
                    | PyObj y \<Rightarrow> 1) (normalize_as_list (PyList [9, 9, 3])) @
              take (case PyList [9 :: int] of PyTuple ys \<Rightarrow> length ys | PyList ys \<Rightarrow> length ys
                    | PyObj y \<Rightarrow> 1) (normalize_as_list (PyList [9, 9, 3]))) =
             Inl (External ''bw_compiler'')"
    using dp by (simp add: ex_cl_bw_fails_def ex_cl_def)
  note t1 = compiler_failure_keeps_cache_entry[OF ex_world_facts(1) miss]
  note t2 = compiler_failure_keeps_cache_entry[OF ex_world_facts(1) miss']
  from t1 h have a: "fst (returned_function ex_cl_fw_fails ex_world [3]) = Inl (External ''fw_compiler'') \<and>
     calls (snd (returned_function ex_cl_fw_fails
            (snd (returned_function ex_cl_fw_fails ex_world [3])) [3])) =
     calls (snd (returned_function ex_cl_fw_fails ex_world [3])) @
       [CallFlatFn, CallMakeFx, CallPartitionFn, CallFwCompiler]"
    by blast
  from t2 h' have b: "fst (returned_function ex_cl_bw_fails ex_world [3]) = Inl (External ''bw_compiler'')"
    by blast
  from t1 t2 a b miss miss' show ?thesis by (simp add: ex_world_facts)
qed

text \<open>
  C8 as stated fails: when the backward compiler raises, the entry for the key is in the
  cache and the cache holds one entry; the retried call hits it, runs the compiled forward
  only and returns, without compiling anything.
\<close>

theorem compiler_failure_cache_counterexample:
  "fst (returned_function ex_cl_bw_fails ex_world [3]) = Inl (External ''bw_compiler'') \<and>
   cache_at (cache_heap (snd (returned_function ex_cl_bw_fails ex_world [3])) 0)
     (cache_key ex_cl_bw_fails [3]) = Some 0 \<and>
   num_of_recompilations (snd (returned_function ex_cl_bw_fails ex_world [3])) = 1 \<and>
   fst (returned_function ex_cl_bw_fails (snd (returned_function ex_cl_bw_fails ex_world [3])) [3]) =
     Inr [9] \<and>
   calls (snd (returned_function ex_cl_bw_fails
            (snd (returned_function ex_cl_bw_fails ex_world [3])) [3])) =
     calls (snd (returned_function ex_cl_bw_fails ex_world [3])) @ [CallCompiledFw]"
  by code_simp

text \<open>
  C7 fails on the code. The backward compiler raises in the first call of a wrapped function;
  the call is repeated and returns, because \<open>compiled_fw\<close> was assigned (line 374) before the
  backward compiler ran (line 385) and the test of line 357 sees a compiled unit, while
  \<open>compiled_bw\<close> is still \<open>None\<close>. The backward call that follows, with one input that needs a
  gradient, returns no gradient slots: it calls \<open>None\<close> (line 396) and raises \<open>TypeError\<close>.
\<close>

theorem backward_after_failed_backward_compile:
  "fst (returned_function ex_cl_bw_fails ex_world [3]) = Inl (External ''bw_compiler'') \<and>
   fst (returned_function ex_cl_bw_fails (snd (returned_function ex_cl_bw_fails ex_world [3])) [3]) =
     Inr [9] \<and>
   fst (forward ex_cl_bw_fails 0 (snd (returned_function ex_cl_bw_fails ex_world [3])) [3]) =
     Inr ([9], [9, 3]) \<and>
   (case compiled_bw (units (snd (returned_function ex_cl_bw_fails
            (snd (returned_function ex_cl_bw_fails ex_world [3])) [3])) 0) of
      None \<Rightarrow> True | Some bw \<Rightarrow> False) \<and>
   backward (compiled_bw (units (snd (returned_function ex_cl_bw_fails
            (snd (returned_function ex_cl_bw_fails ex_world [3])) [3])) 0))
     \<lparr>saved_tensors = [9, 3], needs_input_grad = [True]\<rparr> [1] = Inl TypeError"
  by code_simp

text \<open>
  C9, as amended. Without \<open>networkx\<close> the recompute-aware partitioner raises the
  \<open>RuntimeError\<close> of line 230 whenever it is called, for every joint graph, and so never
  falls back to another partitioner. Wrapping a function with it raises nothing; the error
  reaches the caller in the first call of a cache miss, after the function has been run and
  the joint graph has been traced, and before any compiler is called.
\<close>

theorem missing_networkx_raises_in_first_call:
  assumes cc: "compile_cache w = Some a"
    and miss: "cache_at (cache_heap w a) (cache_key cl xs) = None"
    and ff: "flat_fn cl xs = Inr out"
    and tr: "make_fx cl (decompose cl) xs out = Inr fx_g"
    and pf: "partition_fn cl = partition_with_recompute_fwd_in_bwd False minimum_cut set_iter"
  shows "fst (returned_function cl w xs) = Inl networkx_error \<and>
         calls (snd (returned_function cl w xs)) =
           calls w @ [CallFlatFn, CallMakeFx, CallPartitionFn] \<and>
         (\<forall>mc it jm. partition_with_recompute_fwd_in_bwd False mc it jm = Inl networkx_error)"
proof (intro conjI allI)
  let ?u = "next_unit w"
  let ?w1 = "miss_world cl w a xs"
  have u1: "compiled_fw (units ?w1 ?u) = None" by (simp add: miss_world_def)
  have pe: "partition_fn cl fx_g = Inl networkx_error"
    by (simp add: pf partition_with_recompute_fwd_in_bwd_def networkx_error_def)
  note f = forward_partition_fails[OF u1 ff tr pe]
  show "fst (returned_function cl w xs) = Inl networkx_error"
    by (rule fst_returned_function_miss[OF cc miss f(1)])
  show "calls (snd (returned_function cl w xs)) = calls w @ [CallFlatFn, CallMakeFx, CallPartitionFn]"
    unfolding snd_returned_function_miss[OF cc miss] f(2) by (simp add: miss_world_def)
next
  fix mc it jm
  show "partition_with_recompute_fwd_in_bwd False mc it jm = Inl networkx_error"
    by (simp add: partition_with_recompute_fwd_in_bwd_def networkx_error_def)
qed

theorem missing_networkx_raises_in_first_call_witness:
  "compile_cache ex_world = Some 0 \<and>
   cache_at (cache_heap ex_world 0) (cache_key ex_cl_no_networkx [3]) = None \<and>
   flat_fn ex_cl_no_networkx [3] = Inr (PyList [9]) \<and>
   fst (returned_function ex_cl_no_networkx ex_world [3]) = Inl networkx_error \<and>
   calls (snd (returned_function ex_cl_no_networkx ex_world [3])) =
     [CallFlatFn, CallMakeFx, CallPartitionFn]"
proof -
  have miss: "cache_at (cache_heap ex_world 0) (cache_key ex_cl_no_networkx [3]) = None"
    by (simp add: ex_world_facts cache_at_def)
  have ff: "flat_fn ex_cl_no_networkx [3] = Inr (PyList [9])"
    by (simp add: ex_cl_no_networkx_def ex_cl_def)
  have tr: "make_fx ex_cl_no_networkx (decompose ex_cl_no_networkx) [3] (PyList [9]) = Inr ex_module"
    by (simp add: ex_cl_no_networkx_def ex_cl_def)
  have pf: "partition_fn ex_cl_no_networkx =
      partition_with_recompute_fwd_in_bwd False (\<lambda>G s t. Inl NetworkXUnbounded) (\<lambda>xs. xs)"
    by (simp add: ex_cl_no_networkx_def)
  from missing_networkx_raises_in_first_call[OF ex_world_facts(1) miss ff tr pf] miss ff
  show ?thesis by (simp add: ex_world_facts)
qed

text \<open>
  C9 as stated fails: with \<open>networkx\<close> missing and the recompute-aware partitioner
  selected, a call whose tracing raises has run the function and called the tracer, and the
  caller sees the failure of the tracer, not the configuration error.
\<close>

theorem tracing_precedes_networkx_check_counterexample:
  "partition_fn ex_cl_trace_fails ex_module = Inl networkx_error \<and>
   fst (returned_function ex_cl_trace_fails ex_world [3]) = Inl (External ''make_fx'') \<and>
   calls (snd (returned_function ex_cl_trace_fails ex_world [3])) = [CallFlatFn, CallMakeFx]"
  by code_simp

end
